theory Spec2Isabelle
  imports Main "HOL-Library.Multiset"
begin

section \<open>Data model\<close>

text \<open>
  The executors of \<^verbatim>\<open>libertem/executor/dask.py\<close> talk to a dask worker pool through a
  client object. The pool itself is not part of the repository; the model keeps of it
  exactly what the executor code can observe or cause: the log of \<^verbatim>\<open>submit\<close> calls
  (a future is the index of its submission), the log of \<^verbatim>\<open>cancel\<close> calls, the set of
  futures whose status is "cancelled", and what closing the client or its cluster does.
\<close>

type_synonym worker = string

type_synonym future = nat

datatype error =
    ValueError string
  | JobCancelledError
  | AttributeError
  | KeyError
  | TypeError
  | TimeoutError
  | OtherException string

text \<open>
  A task exposes \<^verbatim>\<open>get_locations()\<close>, which is \<^verbatim>\<open>None\<close> or a sequence of worker names;
  a job exposes \<^verbatim>\<open>get_tasks()\<close>. Objects are compared by identity in Python, which the
  reference fields stand for.
\<close>

record task =
  task_ref :: nat
  get_locations :: "worker list option"

record job =
  job_ref :: nat
  get_tasks :: "task list"

record local_cluster =
  cluster_close_raises :: "error option"
  cluster_closed :: bool

record 'c client =
  submitted :: "('c \<times> worker list option) list"
  cancel_requests :: "future list list"
  cancelled_keys :: "future set"
  close_raises :: "error option"
  client_closed :: bool
  cluster :: "local_cluster option"

text \<open>
  \<^verbatim>\<open>DaskJobExecutor.__init__\<close> sets \<^verbatim>\<open>is_local\<close> and \<^verbatim>\<open>client\<close>;
  \<^verbatim>\<open>AsyncDaskJobExecutor.__init__\<close> sets \<^verbatim>\<open>_futures = {}\<close> in addition. The
  module-level logger is kept as the list of logged messages.
\<close>

record 'c executor =
  client :: "'c client option"
  is_local :: bool
  logged :: "string list"

record 'c async_executor = "'c executor" +
  futures :: "job \<rightharpoonup> future list"

section \<open>The pool operations the executors call\<close>

text \<open>\<^verbatim>\<open>client.submit(fn, workers=...)\<close>: enqueue one unit of work, return its future.\<close>

definition submit :: "'c \<Rightarrow> worker list option \<Rightarrow> 'c client \<Rightarrow> future \<times> 'c client" where
  "submit fn workers c =
     (length (submitted c), c\<lparr>submitted := submitted c @ [(fn, workers)]\<rparr>)"

text \<open>\<^verbatim>\<open>client.cancel(futures)\<close>: the request is recorded and the futures become cancelled.\<close>

definition cancel :: "future list \<Rightarrow> 'c client \<Rightarrow> 'c client" where
  "cancel fs c =
     c\<lparr>cancel_requests := cancel_requests c @ [fs],
       cancelled_keys := cancelled_keys c \<union> set fs\<rparr>"

text \<open>\<^verbatim>\<open>future.cancelled()\<close>, read through the client that owns the future.\<close>

definition future_cancelled :: "('c, 'z) executor_scheme \<Rightarrow> future \<Rightarrow> bool" where
  "future_cancelled ex f =
     (case client ex of None \<Rightarrow> False | Some c \<Rightarrow> f \<in> cancelled_keys c)"

text \<open>\<^verbatim>\<open>client.close()\<close> and \<^verbatim>\<open>cluster.close(timeout=1)\<close>; either may raise.\<close>

definition client_close :: "'c client \<Rightarrow> (error + unit) \<times> 'c client" where
  "client_close c =
     (case close_raises c of
        Some e \<Rightarrow> (Inl e, c)
      | None \<Rightarrow> (Inr (), c\<lparr>client_closed := True\<rparr>))"

definition cluster_close :: "local_cluster \<Rightarrow> (error + unit) \<times> local_cluster" where
  "cluster_close cl =
     (case cluster_close_raises cl of
        Some e \<Rightarrow> (Inl e, cl)
      | None \<Rightarrow> (Inr (), cl\<lparr>cluster_closed := True\<rparr>))"

section \<open>CommonDaskMixin\<close>

text \<open>
  \<^verbatim>\<open>_get_futures\<close>: the loop over \<^verbatim>\<open>job.get_tasks()\<close>, with the list of futures built
  so far as accumulator. The \<^verbatim>\<open>ValueError\<close> is raised before the task at hand is
  submitted; \<^verbatim>\<open>self.client.submit\<close> on a client that is \<^verbatim>\<open>None\<close> is an
  \<^verbatim>\<open>AttributeError\<close>.
\<close>

fun get_futures_loop ::
  "task list \<Rightarrow> future list \<Rightarrow> (task, 'z) executor_scheme
     \<Rightarrow> (error + future list) \<times> (task, 'z) executor_scheme" where
  "get_futures_loop [] futs ex = (Inr futs, ex)"
| "get_futures_loop (t # ts) futs ex =
     (let locations = get_locations t in
      if (case locations of None \<Rightarrow> False | Some ls \<Rightarrow> length ls = 0)
      then (Inl (ValueError ''no workers found for task''), ex)
      else (case client ex of
              None \<Rightarrow> (Inl AttributeError, ex)
            | Some c \<Rightarrow>
                (let (f, c') = submit t locations c
                 in get_futures_loop ts (futs @ [f]) (ex\<lparr>client := Some c'\<rparr>))))"

definition get_futures ::
  "job \<Rightarrow> (task, 'z) executor_scheme \<Rightarrow> (error + future list) \<times> (task, 'z) executor_scheme" where
  "get_futures j ex = get_futures_loop (get_tasks j) [] ex"

text \<open>
  What a failing \<^verbatim>\<open>_get_futures\<close> has submitted by the time it raises: the tasks in
  front of the first one whose locations are an empty sequence, each with its locations.
\<close>

definition dispatched :: "task list \<Rightarrow> (task \<times> worker list option) list" where
  "dispatched ts =
     map (\<lambda>u. (u, get_locations u)) (takeWhile (\<lambda>u. get_locations u \<noteq> Some []) ts)"

section \<open>Generators\<close>

text \<open>
  \<^verbatim>\<open>run_job\<close> is a generator in both executors. A generator object is either not yet
  started, suspended at its \<^verbatim>\<open>yield\<close> with the rest of the completion stream still to
  come, or finished. Resuming it gives one of three signals.

  \<^verbatim>\<open>dd.as_completed(futures, with_results=True)\<close> belongs to the pool: it is a
  parameter \<open>ac\<close> of the model, giving for a list of futures the (future, result) pairs
  in the order the pool delivers them. Whether a future is cancelled is read from the
  executor at the moment the loop body runs, so a cancellation between two resumptions
  is seen by the next one. One resumption is one step: what other coroutines do while a
  resumption waits for the next completion is not interleaved with it.
\<close>

datatype 'r gen = Created job | Suspended job "(future \<times> 'r) list" | Closed

datatype 'r signal = Yield 'r | StopIteration | Raise error

subsection \<open>DaskJobExecutor.run_job\<close>

definition run_job_resume ::
  "job \<Rightarrow> (future \<times> 'r) list \<Rightarrow> task executor \<Rightarrow> 'r signal \<times> 'r gen \<times> task executor" where
  "run_job_resume j stream ex =
     (case stream of
        [] \<Rightarrow> (StopIteration, Closed, ex)
      | (f, r) # rest \<Rightarrow> (Yield r, Suspended j rest, ex))"

fun run_job_next ::
  "(future list \<Rightarrow> (future \<times> 'r) list) \<Rightarrow> 'r gen \<Rightarrow> task executor
     \<Rightarrow> 'r signal \<times> 'r gen \<times> task executor" where
  "run_job_next ac (Created j) ex =
     (case get_futures j ex of
        (Inl e, ex') \<Rightarrow> (Raise e, Closed, ex')
      | (Inr fs, ex') \<Rightarrow> run_job_resume j (ac fs) ex')"
| "run_job_next ac (Suspended j stream) ex = run_job_resume j stream ex"
| "run_job_next ac Closed ex = (StopIteration, Closed, ex)"

text \<open>Iterating the generator to its end, with nothing else touching the executor.\<close>

definition run_job ::
  "(future list \<Rightarrow> (future \<times> 'r) list) \<Rightarrow> job \<Rightarrow> task executor
     \<Rightarrow> 'r list \<times> error option \<times> task executor" where
  "run_job ac j ex =
     (case get_futures j ex of
        (Inl e, ex') \<Rightarrow> ([], Some e, ex')
      | (Inr fs, ex') \<Rightarrow> (map snd (ac fs), None, ex'))"

subsection \<open>AsyncDaskJobExecutor.run_job and cancel_job\<close>

text \<open>
  One resumption of the loop: the next pair of the stream is taken, the future is asked
  whether it was cancelled, and the result is yielded; when the stream has ended,
  \<^verbatim>\<open>del self._futures[job]\<close> runs, which is a \<^verbatim>\<open>KeyError\<close> for a missing key.
\<close>

definition async_run_job_resume ::
  "job \<Rightarrow> (future \<times> 'r) list \<Rightarrow> task async_executor
     \<Rightarrow> 'r signal \<times> 'r gen \<times> task async_executor" where
  "async_run_job_resume j stream ex =
     (case stream of
        [] \<Rightarrow>
          (if j \<in> dom (futures ex)
           then (StopIteration, Closed, ex\<lparr>futures := (futures ex)(j := None)\<rparr>)
           else (Raise KeyError, Closed, ex))
      | (f, r) # rest \<Rightarrow>
          (if future_cancelled ex f
           then (Raise JobCancelledError, Closed, ex)
           else (Yield r, Suspended j rest, ex)))"

fun async_run_job_next ::
  "(future list \<Rightarrow> (future \<times> 'r) list) \<Rightarrow> 'r gen \<Rightarrow> task async_executor
     \<Rightarrow> 'r signal \<times> 'r gen \<times> task async_executor" where
  "async_run_job_next ac (Created j) ex =
     (case get_futures j ex of
        (Inl e, ex') \<Rightarrow> (Raise e, Closed, ex')
      | (Inr fs, ex') \<Rightarrow>
          async_run_job_resume j (ac fs) (ex'\<lparr>futures := (futures ex')(j \<mapsto> fs)\<rparr>))"
| "async_run_job_next ac (Suspended j stream) ex = async_run_job_resume j stream ex"
| "async_run_job_next ac Closed ex = (StopIteration, Closed, ex)"

text \<open>The \<^verbatim>\<open>async for\<close> loop and the \<^verbatim>\<open>del\<close> after it, run to the end.\<close>

fun async_consume ::
  "job \<Rightarrow> (future \<times> 'r) list \<Rightarrow> task async_executor
     \<Rightarrow> 'r list \<times> error option \<times> task async_executor" where
  "async_consume j [] ex =
     (if j \<in> dom (futures ex)
      then ([], None, ex\<lparr>futures := (futures ex)(j := None)\<rparr>)
      else ([], Some KeyError, ex))"
| "async_consume j ((f, r) # rest) ex =
     (if future_cancelled ex f
      then ([], Some JobCancelledError, ex)
      else (case async_consume j rest ex of (ys, e, ex') \<Rightarrow> (r # ys, e, ex')))"

definition async_run_job ::
  "(future list \<Rightarrow> (future \<times> 'r) list) \<Rightarrow> job \<Rightarrow> task async_executor
     \<Rightarrow> 'r list \<times> error option \<times> task async_executor" where
  "async_run_job ac j ex =
     (case get_futures j ex of
        (Inl e, ex') \<Rightarrow> ([], Some e, ex')
      | (Inr fs, ex') \<Rightarrow> async_consume j (ac fs) (ex'\<lparr>futures := (futures ex')(j \<mapsto> fs)\<rparr>))"

definition cancel_job ::
  "job \<Rightarrow> 'c async_executor \<Rightarrow> (error + unit) \<times> 'c async_executor" where
  "cancel_job j ex =
     (case futures ex j of
        None \<Rightarrow> (Inr (), ex)
      | Some fs \<Rightarrow>
          (case client ex of
             None \<Rightarrow> (Inl AttributeError, ex)
           | Some c \<Rightarrow> (Inr (), ex\<lparr>client := Some (cancel fs c)\<rparr>)))"

subsection \<open>DaskJobExecutor.map_partitions\<close>

text \<open>
  A partition exposes \<^verbatim>\<open>get_locations()\<close> like a task does, a dataset exposes
  \<^verbatim>\<open>get_partitions()\<close>. What is submitted is
  \<^verbatim>\<open>functools.partial(fn, partition=partition, **fn_kwargs)\<close>, with \<open>fn\<close> a callable
  and \<open>fn_kwargs\<close> a dict with string keys. The call that builds it passes
  \<^verbatim>\<open>partition\<close> by keyword twice when \<open>fn_kwargs\<close> has the key "partition" itself:
  that is a \<^verbatim>\<open>TypeError\<close>, raised before anything is submitted for the partition.
\<close>

record partition =
  partition_ref :: nat
  partition_get_locations :: "worker list option"

record dataset =
  dataset_ref :: nat
  get_partitions :: "partition list"

datatype ('f, 'v) partial = Partial 'f partition "(string \<times> 'v) list"

fun map_partitions_loop ::
  "'f \<Rightarrow> (string \<times> 'v) list \<Rightarrow> partition list \<Rightarrow> future list \<Rightarrow> ('f, 'v) partial executor
     \<Rightarrow> (error + future list) \<times> ('f, 'v) partial executor" where
  "map_partitions_loop fn fn_kwargs [] futs ex = (Inr futs, ex)"
| "map_partitions_loop fn fn_kwargs (p # ps) futs ex =
     (if ''partition'' \<in> fst ` set fn_kwargs then (Inl TypeError, ex)
      else (let fn_bound = Partial fn p fn_kwargs in
            case client ex of
              None \<Rightarrow> (Inl AttributeError, ex)
            | Some c \<Rightarrow>
                (let (f, c') = submit fn_bound (partition_get_locations p) c
                 in map_partitions_loop fn fn_kwargs ps (futs @ [f]) (ex\<lparr>client := Some c'\<rparr>))))"

definition map_partitions ::
  "(future list \<Rightarrow> (future \<times> 'r) list) \<Rightarrow> dataset \<Rightarrow> 'f \<Rightarrow> (string \<times> 'v) list option
     \<Rightarrow> ('f, 'v) partial executor \<Rightarrow> 'r list \<times> error option \<times> ('f, 'v) partial executor" where
  "map_partitions ac ds fn fn_kwargs ex =
     (let fn_kwargs = (case fn_kwargs of None \<Rightarrow> [] | Some kw \<Rightarrow> kw) in
      case map_partitions_loop fn fn_kwargs (get_partitions ds) [] ex of
        (Inl e, ex') \<Rightarrow> ([], Some e, ex')
      | (Inr fs, ex') \<Rightarrow> (map snd (ac fs), None, ex'))"

subsection \<open>close\<close>

text \<open>\<^verbatim>\<open>try: cluster.close(timeout=1)  except tornado.util.TimeoutError: pass\<close>\<close>

definition try_cluster_close :: "local_cluster \<Rightarrow> (error + unit) \<times> local_cluster" where
  "try_cluster_close cl =
     (case cluster_close cl of
        (Inl TimeoutError, cl') \<Rightarrow> (Inr (), cl')
      | (r, cl') \<Rightarrow> (r, cl'))"

text \<open>
  \<^verbatim>\<open>DaskJobExecutor.close\<close>: an attribute access on a client that is \<^verbatim>\<open>None\<close>
  (\<^verbatim>\<open>self.client.cluster\<close>, \<^verbatim>\<open>self.client.close\<close>) is an \<^verbatim>\<open>AttributeError\<close>.
\<close>

definition close :: "'c executor \<Rightarrow> (error + unit) \<times> 'c executor" where
  "close ex =
     (case (if is_local ex
            then (case client ex of
                    None \<Rightarrow> (Inl AttributeError, ex)
                  | Some c \<Rightarrow>
                      (case cluster c of
                         None \<Rightarrow> (Inr (), ex)
                       | Some cl \<Rightarrow>
                           (case try_cluster_close cl of
                              (r, cl') \<Rightarrow> (r, ex\<lparr>client := Some (c\<lparr>cluster := Some cl'\<rparr>)\<rparr>))))
            else (Inr (), ex)) of
        (Inl e, ex1) \<Rightarrow> (Inl e, ex1)
      | (Inr u, ex1) \<Rightarrow>
          (case client ex1 of
             None \<Rightarrow> (Inl AttributeError, ex1)
           | Some c \<Rightarrow> (case client_close c of (r, c') \<Rightarrow> (r, ex1\<lparr>client := Some c'\<rparr>))))"

text \<open>
  \<^verbatim>\<open>AsyncDaskJobExecutor.close\<close>: the body of the outer \<^verbatim>\<open>try\<close>, then the handler
  \<^verbatim>\<open>except Exception: log.exception(...)\<close>, which catches every error of the model.
\<close>

definition async_close_body :: "'c async_executor \<Rightarrow> (error + unit) \<times> 'c async_executor" where
  "async_close_body ex =
     (case client ex of
        None \<Rightarrow>
          (Inr (), ex\<lparr>logged := logged ex @ [''could not close dask executor, client is None'']\<rparr>)
      | Some c \<Rightarrow>
          (case client_close c of
             (Inl e, c1) \<Rightarrow> (Inl e, ex\<lparr>client := Some c1\<rparr>)
           | (Inr u, c1) \<Rightarrow>
               (if is_local ex
                then (case cluster c1 of
                        None \<Rightarrow> (Inl AttributeError, ex\<lparr>client := Some c1\<rparr>)
                      | Some cl \<Rightarrow>
                          (case try_cluster_close cl of
                             (r, cl') \<Rightarrow> (r, ex\<lparr>client := Some (c1\<lparr>cluster := Some cl'\<rparr>)\<rparr>)))
                else (Inr (), ex\<lparr>client := Some c1\<rparr>))))"

definition async_close :: "'c async_executor \<Rightarrow> (error + unit) \<times> 'c async_executor" where
  "async_close ex =
     (case async_close_body ex of
        (Inl e, ex1) \<Rightarrow> (Inr (), ex1\<lparr>logged := logged ex1 @ [''could not close dask executor'']\<rparr>)
      | (Inr u, ex1) \<Rightarrow> (Inr (), ex1))"

section \<open>Thread-count scopes (libertem/utils/threading.py)\<close>

text \<open>
  The state of the numeric libraries: numba's current thread count,
  \<^verbatim>\<open>pyfftw.config.NUM_THREADS\<close>, and the limit that threadpoolctl holds. Whether
  \<^verbatim>\<open>import pyfftw\<close> succeeded is fixed when the module is loaded: it is the parameter
  \<open>pyfftw\<close>. Which thread counts \<^verbatim>\<open>numba.set_num_threads\<close> accepts is numba's
  business: it is the parameter \<open>accepts\<close>, and a refused count is a \<^verbatim>\<open>ValueError\<close>.
\<close>

record libs =
  numba_num_threads :: int
  fftw_num_threads :: int
  threadpool_limit :: "int option"

definition numba_set_num_threads ::
  "(int \<Rightarrow> bool) \<Rightarrow> int \<Rightarrow> libs \<Rightarrow> (error + unit) \<times> libs" where
  "numba_set_num_threads accepts n st =
     (if accepts n then (Inr (), st\<lparr>numba_num_threads := n\<rparr>)
      else (Inl (ValueError ''The number of threads must be between 1 and NUMBA_NUM_THREADS''), st))"

text \<open>
  A \<^verbatim>\<open>@contextmanager\<close> generator used in a \<^verbatim>\<open>with\<close> statement: the code before
  \<^verbatim>\<open>yield\<close> runs, then the body of the \<^verbatim>\<open>with\<close>, then the \<^verbatim>\<open>finally\<close> block,
  whether the body (or the code before \<^verbatim>\<open>yield\<close>) raised or not; an error raised inside
  the \<^verbatim>\<open>finally\<close> block replaces the pending one.
\<close>

definition set_fftw_threads ::
  "bool \<Rightarrow> int \<Rightarrow> (libs \<Rightarrow> (error + 'a) \<times> libs) \<Rightarrow> libs \<Rightarrow> (error + 'a) \<times> libs" where
  "set_fftw_threads pyfftw n body st =
     (if pyfftw
      then (let pyfftw_threads = fftw_num_threads st in
            case body (st\<lparr>fftw_num_threads := n\<rparr>) of
              (r, st1) \<Rightarrow> (r, st1\<lparr>fftw_num_threads := pyfftw_threads\<rparr>))
      else body st)"

definition set_numba_threads ::
  "(int \<Rightarrow> bool) \<Rightarrow> int \<Rightarrow> (libs \<Rightarrow> (error + 'a) \<times> libs) \<Rightarrow> libs \<Rightarrow> (error + 'a) \<times> libs" where
  "set_numba_threads accepts n body st =
     (let numba_threads = numba_num_threads st in
      case (case numba_set_num_threads accepts n st of
              (Inl e, st0) \<Rightarrow> (Inl e, st0)
            | (Inr u, st0) \<Rightarrow> body st0) of
        (r, st1) \<Rightarrow>
          (case numba_set_num_threads accepts numba_threads st1 of
             (Inl e, st2) \<Rightarrow> (Inl e, st2)
           | (Inr u, st2) \<Rightarrow> (r, st2)))"

text \<open>
  \<^verbatim>\<open>threadpoolctl.threadpool_limits(n)\<close> is the library's own scope: it imposes the limit
  on entry and puts the previous one back on exit.
\<close>

definition threadpool_limits ::
  "int \<Rightarrow> (libs \<Rightarrow> (error + 'a) \<times> libs) \<Rightarrow> libs \<Rightarrow> (error + 'a) \<times> libs" where
  "threadpool_limits n body st =
     (let original = threadpool_limit st in
      case body (st\<lparr>threadpool_limit := Some n\<rparr>) of
        (r, st1) \<Rightarrow> (r, st1\<lparr>threadpool_limit := original\<rparr>))"

definition set_num_threads ::
  "(int \<Rightarrow> bool) \<Rightarrow> bool \<Rightarrow> int \<Rightarrow> (libs \<Rightarrow> (error + 'a) \<times> libs) \<Rightarrow> libs
     \<Rightarrow> (error + 'a) \<times> libs" where
  "set_num_threads accepts pyfftw n body st =
     threadpool_limits n (set_fftw_threads pyfftw n (set_numba_threads accepts n body)) st"

section \<open>Iterating a generator\<close>

text \<open>
  A consumer calls \<^verbatim>\<open>next\<close> until the generator stops or raises. The number of
  resumptions is bounded by the fuel; \<open>None\<close> means the fuel ran out first.
\<close>

fun iterate ::
  "nat \<Rightarrow> ('g \<Rightarrow> 's \<Rightarrow> 'r signal \<times> 'g \<times> 's) \<Rightarrow> 'g \<Rightarrow> 's
     \<Rightarrow> ('r list \<times> error option \<times> 's) option" where
  "iterate 0 nxt g s = None"
| "iterate (Suc n) nxt g s =
     (case nxt g s of
        (Yield r, g', s') \<Rightarrow>
          (case iterate n nxt g' s' of
             None \<Rightarrow> None
           | Some (ys, e, s'') \<Rightarrow> Some (r # ys, e, s''))
      | (StopIteration, g', s') \<Rightarrow> Some ([], None, s')
      | (Raise e, g', s') \<Rightarrow> Some ([], Some e, s'))"

section \<open>A successful dispatch and the contract of the completion stream\<close>

text \<open>
  The client after \<^verbatim>\<open>_get_futures\<close> has submitted every task of a list, each with its
  own locations, and the futures it has returned for them.
\<close>

definition submit_all :: "task list \<Rightarrow> task client \<Rightarrow> task client" where
  "submit_all ts c = c\<lparr>submitted := submitted c @ map (\<lambda>t. (t, get_locations t)) ts\<rparr>"

definition futures_of :: "task list \<Rightarrow> task client \<Rightarrow> future list" where
  "futures_of ts c = [length (submitted c) ..< length (submitted c) + length ts]"

text \<open>
  What is expected of \<^verbatim>\<open>as_completed\<close> on the futures \<open>fs\<close> of a client, \<open>result x\<close>
  being what the callable \<open>x\<close> returns when a worker runs it: every future is delivered
  exactly once, and each is delivered with the result of the callable that the client's
  submission log holds for it. A pool in which one of these callables fails, or one of
  these futures is cancelled, does not keep this contract. The order of delivery is left
  open: it is the order of completion.
\<close>

definition completes ::
  "(future list \<Rightarrow> (future \<times> 'r) list) \<Rightarrow> ('c \<Rightarrow> 'r) \<Rightarrow> 'c client \<Rightarrow> future list \<Rightarrow> bool" where
  "completes ac result c fs =
     (mset (map fst (ac fs)) = mset fs
      \<and> (\<forall>(f, r) \<in> set (ac fs).
            f < length (submitted c) \<and> r = result (fst (submitted c ! f))))"

section \<open>Example objects\<close>

definition task_a :: task where
  "task_a = \<lparr>task_ref = 0, get_locations = Some [''worker-a'']\<rparr>"

definition task_any :: task where
  "task_any = \<lparr>task_ref = 1, get_locations = None\<rparr>"

definition task_nowhere :: task where
  "task_nowhere = \<lparr>task_ref = 2, get_locations = Some []\<rparr>"

definition job_ok :: job where
  "job_ok = \<lparr>job_ref = 0, get_tasks = [task_a, task_any]\<rparr>"

definition job_three :: job where
  "job_three =
     \<lparr>job_ref = 3,
      get_tasks = [\<lparr>task_ref = 0, get_locations = None\<rparr>,
                   \<lparr>task_ref = 1, get_locations = None\<rparr>,
                   \<lparr>task_ref = 2, get_locations = None\<rparr>]\<rparr>"

definition job_nowhere :: job where
  "job_nowhere = \<lparr>job_ref = 1, get_tasks = [task_nowhere]\<rparr>"

definition job_late_failure :: job where
  "job_late_failure = \<lparr>job_ref = 2, get_tasks = [task_a, task_nowhere, task_any]\<rparr>"

definition fresh_client :: "'c client" where
  "fresh_client =
     \<lparr>submitted = [], cancel_requests = [], cancelled_keys = {},
      close_raises = None, client_closed = False, cluster = None\<rparr>"

definition sync_executor :: "'c executor" where
  "sync_executor = \<lparr>client = Some fresh_client, is_local = False, logged = []\<rparr>"

definition async_executor :: "'c async_executor" where
  "async_executor =
     \<lparr>client = Some fresh_client, is_local = False, logged = [], futures = Map.empty\<rparr>"

text \<open>
  An asynchronous executor in which \<open>job_ok\<close> is still tracked, as an earlier run of it
  that ended with the cancellation error leaves it.
\<close>

definition async_executor_tracking :: "task async_executor" where
  "async_executor_tracking =
     \<lparr>client = Some fresh_client, is_local = False, logged = [],
      futures = [job_ok \<mapsto> [7]]\<rparr>"

text \<open>
  A pool that completes work in the reverse of the submission order; the result of a
  future is the name of the task: its reference number.
\<close>

definition task_result :: "task \<Rightarrow> nat" where
  "task_result t = task_ref t"

definition reverse_completion :: "task list \<Rightarrow> future list \<Rightarrow> (future \<times> nat) list" where
  "reverse_completion ts fs = rev (zip fs (map task_result ts))"

definition partition_nowhere :: partition where
  "partition_nowhere = \<lparr>partition_ref = 0, partition_get_locations = Some []\<rparr>"

definition partition_b :: partition where
  "partition_b = \<lparr>partition_ref = 1, partition_get_locations = Some [''worker-b'']\<rparr>"

definition dataset_example :: dataset where
  "dataset_example = \<lparr>dataset_ref = 0, get_partitions = [partition_nowhere, partition_b]\<rparr>"

text \<open>
  A numba that accepts 1 to 8 threads, libraries set to 8 and 1 threads, and a task body
  that changes both thread counts itself and then raises.
\<close>

definition numba_accepts :: "int \<Rightarrow> bool" where
  "numba_accepts k = (1 \<le> k \<and> k \<le> 8)"

definition libs_example :: libs where
  "libs_example = \<lparr>numba_num_threads = 8, fftw_num_threads = 1, threadpool_limit = None\<rparr>"

definition failing_body :: "libs \<Rightarrow> (error + unit) \<times> libs" where
  "failing_body st =
     (Inl (OtherException ''task failed''), st\<lparr>numba_num_threads := 5, fftw_num_threads := 7\<rparr>)"


section \<open>The dispatcher\<close>

text \<open>
  When no task of the list declares an empty location sequence and the executor has a
  client, every task is submitted with its own locations, in order, and the futures are
  the next free indices of the submission log.
\<close>

lemma get_futures_loop_ok:
  "client ex = Some c \<Longrightarrow> \<forall>t\<in>set ts. get_locations t \<noteq> Some [] \<Longrightarrow>
   get_futures_loop ts futs ex =
     (Inr (futs @ [length (submitted c) ..< length (submitted c) + length ts]),
      ex\<lparr>client := Some (c\<lparr>submitted := submitted c @ map (\<lambda>t. (t, get_locations t)) ts\<rparr>)\<rparr>)"
proof (induction ts arbitrary: futs ex c)
  case Nil
  have "ex\<lparr>client := client ex\<rparr> = ex" by simp
  with Nil show ?case by simp
next
  case (Cons t ts)
  let ?c' = "c\<lparr>submitted := submitted c @ [(t, get_locations t)]\<rparr>"
  let ?ex' = "ex\<lparr>client := Some ?c'\<rparr>"
  have ok: "\<not> (case get_locations t of None \<Rightarrow> False | Some ls \<Rightarrow> length ls = 0)"
    using Cons.prems(2) by (auto split: option.splits)
  have step: "get_futures_loop (t # ts) futs ex =
      get_futures_loop ts (futs @ [length (submitted c)]) ?ex'"
    using ok Cons.prems(1) by (simp add: submit_def Let_def)
  have rest: "\<forall>t\<in>set ts. get_locations t \<noteq> Some []"
    using Cons.prems(2) by simp
  have cl: "client ?ex' = Some ?c'" by simp
  have upt: "[length (submitted c) ..< length (submitted c) + length (t # ts)] =
      length (submitted c) # [Suc (length (submitted c)) ..< Suc (length (submitted c)) + length ts]"
    by (simp del: upt_Suc add: upt_conv_Cons)
  show ?case
    using Cons.IH [OF cl rest, of "futs @ [length (submitted c)]"]
    unfolding step upt
    by (simp del: upt_Suc)
qed

text \<open>
  When some task of the list declares an empty location sequence, the loop raises at the
  first such task, having submitted the tasks in front of it and nothing else.
\<close>

lemma get_futures_loop_fail:
  "client ex = Some c \<Longrightarrow> t \<in> set ts \<Longrightarrow> get_locations t = Some [] \<Longrightarrow>
   get_futures_loop ts futs ex =
     (Inl (ValueError ''no workers found for task''),
      ex\<lparr>client := Some (c\<lparr>submitted := submitted c @
          map (\<lambda>t. (t, get_locations t)) (takeWhile (\<lambda>t. get_locations t \<noteq> Some []) ts)\<rparr>)\<rparr>)"
proof (induction ts arbitrary: futs ex c)
  case Nil
  then show ?case by simp
next
  case (Cons u ts)
  show ?case
  proof (cases "get_locations u = Some []")
    case True
    have "ex\<lparr>client := client ex\<rparr> = ex" by simp
    with True Cons.prems(1) show ?thesis by simp
  next
    case False
    let ?c' = "c\<lparr>submitted := submitted c @ [(u, get_locations u)]\<rparr>"
    let ?ex' = "ex\<lparr>client := Some ?c'\<rparr>"
    have ok: "\<not> (case get_locations u of None \<Rightarrow> False | Some ls \<Rightarrow> length ls = 0)"
      using False by (auto split: option.splits)
    have step: "get_futures_loop (u # ts) futs ex =
        get_futures_loop ts (futs @ [length (submitted c)]) ?ex'"
      using ok Cons.prems(1) by (simp add: submit_def Let_def)
    have mem: "t \<in> set ts" using Cons.prems(2,3) False by auto
    have cl: "client ?ex' = Some ?c'" by simp
    show ?thesis
      unfolding step Cons.IH [OF cl mem Cons.prems(3)]
      using False by simp
  qed
qed

lemma get_futures_fail:
  assumes "client ex = Some c" "t \<in> set (get_tasks j)" "get_locations t = Some []"
  shows "get_futures j ex =
     (Inl (ValueError ''no workers found for task''),
      ex\<lparr>client := Some (c\<lparr>submitted := submitted c @ dispatched (get_tasks j)\<rparr>)\<rparr>)"
  unfolding get_futures_def dispatched_def
  by (rule get_futures_loop_fail [OF assms])

section \<open>Empty location sequences fail fast\<close>

text \<open>
  Claim C1. For every job containing a task whose \<^verbatim>\<open>get_locations()\<close> is an explicit
  empty sequence, and for both executors (with a client): the first resumption of
  \<^verbatim>\<open>run_job\<close> raises the no-workers error (in the code a \<^verbatim>\<open>ValueError\<close> with the
  message "no workers found for task"), so iterating it yields no result at all; the
  submissions made by then are those of the tasks in front of the first task with an
  empty location sequence, so that task is not among them and no submission carries an
  empty worker list.
\<close>

theorem empty_locations_raise_before_submit:
  fixes ex :: "task executor" and aex :: "task async_executor"
  assumes "t \<in> set (get_tasks j)" and "get_locations t = Some []"
    and "client ex = Some c" and "client aex = Some d"
  shows
    "run_job_next ac (Created j) ex =
       (Raise (ValueError ''no workers found for task''), Closed,
        ex\<lparr>client := Some (c\<lparr>submitted := submitted c @ dispatched (get_tasks j)\<rparr>)\<rparr>)
     \<and> run_job ac j ex =
       ([], Some (ValueError ''no workers found for task''),
        ex\<lparr>client := Some (c\<lparr>submitted := submitted c @ dispatched (get_tasks j)\<rparr>)\<rparr>)
     \<and> async_run_job_next ac (Created j) aex =
       (Raise (ValueError ''no workers found for task''), Closed,
        aex\<lparr>client := Some (d\<lparr>submitted := submitted d @ dispatched (get_tasks j)\<rparr>)\<rparr>)
     \<and> async_run_job ac j aex =
       ([], Some (ValueError ''no workers found for task''),
        aex\<lparr>client := Some (d\<lparr>submitted := submitted d @ dispatched (get_tasks j)\<rparr>)\<rparr>)
     \<and> t \<notin> fst ` set (dispatched (get_tasks j))
     \<and> Some [] \<notin> snd ` set (dispatched (get_tasks j))"
proof -
  have s: "get_futures j ex =
     (Inl (ValueError ''no workers found for task''),
      ex\<lparr>client := Some (c\<lparr>submitted := submitted c @ dispatched (get_tasks j)\<rparr>)\<rparr>)"
    using assms(3,1,2) by (rule get_futures_fail)
  have a: "get_futures j aex =
     (Inl (ValueError ''no workers found for task''),
      aex\<lparr>client := Some (d\<lparr>submitted := submitted d @ dispatched (get_tasks j)\<rparr>)\<rparr>)"
    using assms(4,1,2) by (rule get_futures_fail)
  have n1: "t \<notin> fst ` set (dispatched (get_tasks j))"
    using assms(2) by (auto simp: dispatched_def dest: set_takeWhileD)
  have n2: "Some [] \<notin> snd ` set (dispatched (get_tasks j))"
    by (auto simp: dispatched_def dest: set_takeWhileD)
  show ?thesis
    using n1 n2 by (simp add: s a run_job_def async_run_job_def)
qed

theorem empty_locations_raise_before_submit_witness:
  "task_nowhere \<in> set (get_tasks job_late_failure)
   \<and> get_locations task_nowhere = Some []
   \<and> client (sync_executor :: task executor) = Some fresh_client
   \<and> client (async_executor :: task async_executor) = Some fresh_client
   \<and> run_job (reverse_completion (get_tasks job_late_failure)) job_late_failure sync_executor =
       ([], Some (ValueError ''no workers found for task''),
        \<lparr>client = Some (fresh_client\<lparr>submitted := [(task_a, Some [''worker-a''])]\<rparr>),
         is_local = False, logged = []\<rparr>)
   \<and> async_run_job (reverse_completion (get_tasks job_late_failure)) job_late_failure
         async_executor =
       ([], Some (ValueError ''no workers found for task''),
        \<lparr>client = Some (fresh_client\<lparr>submitted := [(task_a, Some [''worker-a''])]\<rparr>),
         is_local = False, logged = [], futures = Map.empty\<rparr>)"
proof -
  have h1: "task_nowhere \<in> set (get_tasks job_late_failure)"
    by (simp add: job_late_failure_def)
  have h2: "get_locations task_nowhere = Some []"
    by (simp add: task_nowhere_def)
  have h3: "client (sync_executor :: task executor) = Some fresh_client"
    by (simp add: sync_executor_def)
  have h4: "client (async_executor :: task async_executor) = Some fresh_client"
    by (simp add: async_executor_def)
  have d: "dispatched (get_tasks job_late_failure) = [(task_a, Some [''worker-a''])]"
    by (simp add: dispatched_def job_late_failure_def task_a_def task_nowhere_def)
  have s: "submitted (fresh_client :: task client) = []"
    by (simp add: fresh_client_def)
  note run = empty_locations_raise_before_submit
    [OF h1 h2 h3 h4, of "reverse_completion (get_tasks job_late_failure)", unfolded d s]
  from run have r1:
    "run_job (reverse_completion (get_tasks job_late_failure)) job_late_failure sync_executor =
       ([], Some (ValueError ''no workers found for task''),
        sync_executor\<lparr>client := Some (fresh_client\<lparr>submitted := [] @ [(task_a, Some [''worker-a''])]\<rparr>)\<rparr>)"
    by (rule conjunct1 [OF conjunct2])
  from run have r2:
    "async_run_job (reverse_completion (get_tasks job_late_failure)) job_late_failure
         async_executor =
       ([], Some (ValueError ''no workers found for task''),
        async_executor\<lparr>client := Some (fresh_client\<lparr>submitted := [] @ [(task_a, Some [''worker-a''])]\<rparr>)\<rparr>)"
    by (rule conjunct1 [OF conjunct2 [OF conjunct2 [OF conjunct2]]])
  show ?thesis
    unfolding r1 r2 using h1 h2 h3 h4 by (simp add: sync_executor_def async_executor_def)
qed

section \<open>A failed dispatch leaves its submissions behind\<close>

text \<open>
  Claim C5, as the code has it. When the submission of a job's tasks fails on an empty
  location sequence, \<^verbatim>\<open>submit\<close> has been called for exactly the tasks in front of the
  first such task and for none after it. The error is passed on with no cancellation:
  the executor afterwards differs from the one before only in its client's submission
  log, so no \<^verbatim>\<open>cancel\<close> call was made for the futures obtained, and the asynchronous
  executor has not entered them in its tracker; if the job was not tracked before, a
  \<^verbatim>\<open>cancel_job\<close> on it afterwards makes no \<^verbatim>\<open>cancel\<close> call either.
\<close>

theorem failed_dispatch_keeps_submitted_prefix:
  fixes ex :: "task executor" and aex :: "task async_executor"
  assumes "t \<in> set (get_tasks j)" and "get_locations t = Some []"
    and "client ex = Some c" and "client aex = Some d"
  shows
    "\<exists>pre bad post.
       get_tasks j = pre @ bad # post
       \<and> (\<forall>u\<in>set pre. get_locations u \<noteq> Some []) \<and> get_locations bad = Some []
       \<and> run_job ac j ex =
           ([], Some (ValueError ''no workers found for task''),
            ex\<lparr>client := Some (c\<lparr>submitted := submitted c @
                map (\<lambda>u. (u, get_locations u)) pre\<rparr>)\<rparr>)
       \<and> async_run_job ac j aex =
           ([], Some (ValueError ''no workers found for task''),
            aex\<lparr>client := Some (d\<lparr>submitted := submitted d @
                map (\<lambda>u. (u, get_locations u)) pre\<rparr>)\<rparr>)
       \<and> (futures aex j = None \<longrightarrow>
            cancel_job j (aex\<lparr>client := Some (d\<lparr>submitted := submitted d @
                map (\<lambda>u. (u, get_locations u)) pre\<rparr>)\<rparr>)
            = (Inr (), aex\<lparr>client := Some (d\<lparr>submitted := submitted d @
                map (\<lambda>u. (u, get_locations u)) pre\<rparr>)\<rparr>))"
proof -
  let ?ok = "\<lambda>u. get_locations u \<noteq> Some []"
  let ?pre = "takeWhile ?ok (get_tasks j)"
  let ?rest = "dropWhile ?ok (get_tasks j)"
  have "\<exists>u\<in>set (get_tasks j). \<not> ?ok u" using assms(1,2) by auto
  then have ne: "?rest \<noteq> []" by (simp add: dropWhile_eq_Nil_conv)
  then obtain bad post where rest: "?rest = bad # post" by (cases ?rest) auto
  have bad: "get_locations bad = Some []"
    using hd_dropWhile [OF ne] rest by simp
  have split: "get_tasks j = ?pre @ bad # post"
    using takeWhile_dropWhile_id [of ?ok "get_tasks j"] rest by simp
  have located: "\<forall>u\<in>set ?pre. get_locations u \<noteq> Some []"
    by (auto dest: set_takeWhileD)
  have d: "dispatched (get_tasks j) = map (\<lambda>u. (u, get_locations u)) ?pre"
    by (simp add: dispatched_def)
  have s: "get_futures j ex =
     (Inl (ValueError ''no workers found for task''),
      ex\<lparr>client := Some (c\<lparr>submitted := submitted c @ dispatched (get_tasks j)\<rparr>)\<rparr>)"
    using assms(3,1,2) by (rule get_futures_fail)
  have a: "get_futures j aex =
     (Inl (ValueError ''no workers found for task''),
      aex\<lparr>client := Some (d\<lparr>submitted := submitted d @ dispatched (get_tasks j)\<rparr>)\<rparr>)"
    using assms(4,1,2) by (rule get_futures_fail)
  have main: "get_tasks j = ?pre @ bad # post
       \<and> (\<forall>u\<in>set ?pre. get_locations u \<noteq> Some []) \<and> get_locations bad = Some []
       \<and> run_job ac j ex =
           ([], Some (ValueError ''no workers found for task''),
            ex\<lparr>client := Some (c\<lparr>submitted := submitted c @
                map (\<lambda>u. (u, get_locations u)) ?pre\<rparr>)\<rparr>)
       \<and> async_run_job ac j aex =
           ([], Some (ValueError ''no workers found for task''),
            aex\<lparr>client := Some (d\<lparr>submitted := submitted d @
                map (\<lambda>u. (u, get_locations u)) ?pre\<rparr>)\<rparr>)
       \<and> (futures aex j = None \<longrightarrow>
            cancel_job j (aex\<lparr>client := Some (d\<lparr>submitted := submitted d @
                map (\<lambda>u. (u, get_locations u)) ?pre\<rparr>)\<rparr>)
            = (Inr (), aex\<lparr>client := Some (d\<lparr>submitted := submitted d @
                map (\<lambda>u. (u, get_locations u)) ?pre\<rparr>)\<rparr>))"
    using split bad located d
    by (simp add: run_job_def async_run_job_def s a cancel_job_def)
  show ?thesis
    by (rule exI [of _ ?pre], rule exI [of _ bad], rule exI [of _ post]) (rule main)
qed

theorem failed_dispatch_keeps_submitted_prefix_witness:
  "task_nowhere \<in> set (get_tasks job_late_failure)
   \<and> get_locations task_nowhere = Some []
   \<and> client (sync_executor :: task executor) = Some fresh_client
   \<and> client (async_executor :: task async_executor) = Some fresh_client
   \<and> futures (async_executor :: task async_executor) job_late_failure = None
   \<and> (\<exists>pre bad post.
       get_tasks job_late_failure = pre @ bad # post \<and> get_locations bad = Some []
       \<and> run_job (reverse_completion (get_tasks job_late_failure)) job_late_failure
             sync_executor =
           ([], Some (ValueError ''no workers found for task''),
            sync_executor\<lparr>client := Some (fresh_client\<lparr>submitted :=
                map (\<lambda>u. (u, get_locations u)) pre\<rparr>)\<rparr>)
       \<and> async_run_job (reverse_completion (get_tasks job_late_failure)) job_late_failure
             async_executor =
           ([], Some (ValueError ''no workers found for task''),
            async_executor\<lparr>client := Some (fresh_client\<lparr>submitted :=
                map (\<lambda>u. (u, get_locations u)) pre\<rparr>)\<rparr>)
       \<and> cancel_job job_late_failure
             (async_executor\<lparr>client := Some (fresh_client\<lparr>submitted :=
                map (\<lambda>u. (u, get_locations u)) pre\<rparr>)\<rparr>)
           = (Inr (), async_executor\<lparr>client := Some (fresh_client\<lparr>submitted :=
                map (\<lambda>u. (u, get_locations u)) pre\<rparr>)\<rparr>))"
proof -
  have h1: "task_nowhere \<in> set (get_tasks job_late_failure)"
    by (simp add: job_late_failure_def)
  have h2: "get_locations task_nowhere = Some []"
    by (simp add: task_nowhere_def)
  have h3: "client (sync_executor :: task executor) = Some fresh_client"
    by (simp add: sync_executor_def)
  have h4: "client (async_executor :: task async_executor) = Some fresh_client"
    by (simp add: async_executor_def)
  have h5: "futures (async_executor :: task async_executor) job_late_failure = None"
    by (simp add: async_executor_def)
  have s: "submitted (fresh_client :: task client) = []"
    by (simp add: fresh_client_def)
  show ?thesis
    using failed_dispatch_keeps_submitted_prefix
      [OF h1 h2 h3 h4, of "reverse_completion (get_tasks job_late_failure)"]
      h1 h2 h3 h4 h5
    unfolding s append_Nil
    by blast
qed

text \<open>
  The job with tasks a, nowhere, any: task a is submitted as future 0, the dispatch fails
  on the second task, and when the error reaches the caller no cancellation request has
  been made and future 0 is not cancelled, in either executor.
\<close>

theorem failed_dispatch_cancels_nothing:
  "(case run_job (reverse_completion (get_tasks job_late_failure)) job_late_failure
           sync_executor of
      (ys, e, ex') \<Rightarrow>
        e = Some (ValueError ''no workers found for task'')
        \<and> map_option submitted (client ex') = Some [(task_a, Some [''worker-a''])]
        \<and> map_option cancel_requests (client ex') = Some []
        \<and> \<not> future_cancelled ex' 0)
   \<and> (case async_run_job (reverse_completion (get_tasks job_late_failure)) job_late_failure
           async_executor of
      (ys, e, ex') \<Rightarrow>
        e = Some (ValueError ''no workers found for task'')
        \<and> map_option submitted (client ex') = Some [(task_a, Some [''worker-a''])]
        \<and> map_option cancel_requests (client ex') = Some []
        \<and> \<not> future_cancelled ex' 0)"
  by (simp add: run_job_def async_run_job_def get_futures_def job_late_failure_def
      task_a_def task_nowhere_def task_any_def sync_executor_def async_executor_def
      fresh_client_def submit_def future_cancelled_def Let_def)

section \<open>map_partitions dispatches without a check\<close>

lemma map_partitions_loop_submits:
  "client ex = Some c \<Longrightarrow> ''partition'' \<notin> fst ` set kw \<Longrightarrow>
   map_partitions_loop fn kw ps futs ex =
     (Inr (futs @ [length (submitted c) ..< length (submitted c) + length ps]),
      ex\<lparr>client := Some (c\<lparr>submitted := submitted c @
          map (\<lambda>p. (Partial fn p kw, partition_get_locations p)) ps\<rparr>)\<rparr>)"
proof (induction ps arbitrary: futs ex c)
  case Nil
  have "ex\<lparr>client := client ex\<rparr> = ex" by simp
  with Nil show ?case by simp
next
  case (Cons p ps)
  let ?c' = "c\<lparr>submitted := submitted c @ [(Partial fn p kw, partition_get_locations p)]\<rparr>"
  let ?ex' = "ex\<lparr>client := Some ?c'\<rparr>"
  have step: "map_partitions_loop fn kw (p # ps) futs ex =
      map_partitions_loop fn kw ps (futs @ [length (submitted c)]) ?ex'"
    using Cons.prems by (simp add: submit_def Let_def)
  have cl: "client ?ex' = Some ?c'" by simp
  have upt: "[length (submitted c) ..< length (submitted c) + length (p # ps)] =
      length (submitted c) # [Suc (length (submitted c)) ..< Suc (length (submitted c)) + length ps]"
    by (simp del: upt_Suc add: upt_conv_Cons)
  show ?case
    using Cons.IH [OF cl Cons.prems(2), of "futs @ [length (submitted c)]"]
    unfolding step upt
    by (simp del: upt_Suc)
qed

lemma map_partitions_loop_rebinds_partition:
  "''partition'' \<in> fst ` set kw \<Longrightarrow> ps \<noteq> [] \<Longrightarrow>
   map_partitions_loop fn kw ps futs ex = (Inl TypeError, ex)"
  by (cases ps) auto

text \<open>
  Claim C10. \<^verbatim>\<open>map_partitions\<close> makes no check of the locations: on an executor with a
  client, what it does is the same whatever the locations of the partitions are. When
  there are partitions and \<open>fn_kwargs\<close> has the key "partition" itself, building the
  bound function raises a \<^verbatim>\<open>TypeError\<close> and nothing is submitted. In every other case it
  does not raise in its dispatch: for every partition of the dataset, in order, it
  submits the bound function with \<^verbatim>\<open>workers\<close> set to the partition's locations as they
  are, so a partition whose locations are an empty sequence is submitted with an empty
  worker list.
\<close>

theorem map_partitions_submits_every_partition:
  assumes "client ex = Some c"
  shows "map_partitions ac ds fn fn_kwargs ex =
     (if get_partitions ds \<noteq> []
         \<and> ''partition'' \<in> fst ` set (case fn_kwargs of None \<Rightarrow> [] | Some kw \<Rightarrow> kw)
      then ([], Some TypeError, ex)
      else (map snd (ac [length (submitted c) ..<
                          length (submitted c) + length (get_partitions ds)]),
            None,
            ex\<lparr>client := Some (c\<lparr>submitted := submitted c @
                map (\<lambda>p. (Partial fn p (case fn_kwargs of None \<Rightarrow> [] | Some kw \<Rightarrow> kw),
                           partition_get_locations p))
                  (get_partitions ds)\<rparr>)\<rparr>))"
proof (cases "''partition'' \<in> fst ` set (case fn_kwargs of None \<Rightarrow> [] | Some kw \<Rightarrow> kw)")
  case rebinds: True
  show ?thesis
  proof (cases "get_partitions ds = []")
    case True
    have "ex\<lparr>client := client ex\<rparr> = ex" by simp
    then show ?thesis
      using True assms by (simp add: map_partitions_def Let_def)
  next
    case False
    then show ?thesis
      using rebinds
      by (simp add: map_partitions_def Let_def map_partitions_loop_rebinds_partition)
  qed
next
  case False
  then show ?thesis
    by (simp add: map_partitions_def Let_def map_partitions_loop_submits [OF assms])
qed

theorem map_partitions_submits_every_partition_witness:
  "client (sync_executor :: (nat, nat) partial executor) = Some fresh_client
   \<and> map_partitions (\<lambda>fs. map (\<lambda>f. (f, f)) (rev fs)) dataset_example (7::nat)
       (Some [(''scale'', 3::nat)]) sync_executor =
     ([1, 0], None,
      \<lparr>client = Some (fresh_client\<lparr>submitted :=
          [(Partial 7 partition_nowhere [(''scale'', 3)], Some []),
           (Partial 7 partition_b [(''scale'', 3)], Some [''worker-b''])]\<rparr>),
       is_local = False, logged = []\<rparr>)
   \<and> map_partitions (\<lambda>fs. map (\<lambda>f. (f, f)) (rev fs)) dataset_example (7::nat)
       (Some [(''partition'', 3::nat)]) sync_executor =
     ([], Some TypeError, sync_executor)"
proof -
  let ?ac = "\<lambda>fs. map (\<lambda>f. (f, f)) (rev fs) :: (nat \<times> nat) list"
  have h: "client (sync_executor :: (nat, nat) partial executor) = Some fresh_client"
    by (simp add: sync_executor_def)
  have s: "submitted (fresh_client :: (nat, nat) partial client) = []"
    by (simp add: fresh_client_def)
  have r1: "map_partitions ?ac dataset_example (7::nat) (Some [(''scale'', 3::nat)])
        sync_executor =
     ([1, 0], None,
      \<lparr>client = Some (fresh_client\<lparr>submitted :=
          [(Partial 7 partition_nowhere [(''scale'', 3)], Some []),
           (Partial 7 partition_b [(''scale'', 3)], Some [''worker-b''])]\<rparr>),
       is_local = False, logged = []\<rparr>)"
    unfolding map_partitions_submits_every_partition [OF h]
    by (simp add: s dataset_example_def partition_nowhere_def partition_b_def
        sync_executor_def rev_map)
  have r2: "map_partitions ?ac dataset_example (7::nat) (Some [(''partition'', 3::nat)])
        sync_executor = ([], Some TypeError, sync_executor)"
    unfolding map_partitions_submits_every_partition [OF h]
    by (simp add: dataset_example_def)
  show ?thesis using h r1 r2 by simp
qed

section \<open>Results of a job\<close>

text \<open>
  A stream that delivers every future once, each with the result of its task, delivers
  the results of the tasks, one for one.
\<close>

lemma completion_results:
  assumes perm: "mset (map fst stream) = mset [n ..< n + length ts]"
    and res: "\<forall>(f, r) \<in> set stream. r = result (ts ! (f - n))"
  shows "map snd stream = map (\<lambda>f. result (ts ! (f - n))) (map fst stream)"
    and "mset (map snd stream) = mset (map result ts)"
    and "length stream = length ts"
proof -
  show eq: "map snd stream = map (\<lambda>f. result (ts ! (f - n))) (map fst stream)"
    using res by (induction stream) auto
  have shift: "map (\<lambda>f. result (ts ! (f - n))) [n ..< n + length ts] = map result ts"
    by (rule nth_equalityI) auto
  have "mset (map snd stream) = image_mset (\<lambda>f. result (ts ! (f - n))) (mset (map fst stream))"
    unfolding eq by (simp only: mset_map)
  also have "\<dots> = mset (map (\<lambda>f. result (ts ! (f - n))) [n ..< n + length ts])"
    unfolding perm by simp
  finally show "mset (map snd stream) = mset (map result ts)"
    unfolding shift .
  have "length (map fst stream) = length [n ..< n + length ts]"
    using perm by (rule mset_eq_length)
  then show "length stream = length ts" by simp
qed

lemma get_futures_ok:
  assumes "client ex = Some c" "\<forall>t\<in>set (get_tasks j). get_locations t \<noteq> Some []"
  shows "get_futures j ex =
     (Inr [length (submitted c) ..< length (submitted c) + length (get_tasks j)],
      ex\<lparr>client := Some (c\<lparr>submitted := submitted c @
          map (\<lambda>t. (t, get_locations t)) (get_tasks j)\<rparr>)\<rparr>)"
  unfolding get_futures_def
  using get_futures_loop_ok [OF assms, of "[]"] by simp

lemma async_consume_all:
  "\<forall>(f, r) \<in> set stream. \<not> future_cancelled ex f \<Longrightarrow> futures ex j = Some fs \<Longrightarrow>
   async_consume j stream ex = (map snd stream, None, ex\<lparr>futures := (futures ex)(j := None)\<rparr>)"
  by (induction stream) (auto simp: domI)

text \<open>Calling \<^verbatim>\<open>next\<close> until the generator stops is what the run functions compute.\<close>

lemma iterate_run_job_suspended:
  "iterate (Suc (length stream + k)) (run_job_next ac) (Suspended j stream) ex =
     Some (map snd stream, None, ex)"
  by (induction stream) (auto simp: run_job_resume_def)

lemma iterate_run_job:
  "\<exists>n. \<forall>k. iterate (n + k) (run_job_next ac) (Created j) ex = Some (run_job ac j ex)"
proof (cases "get_futures j ex")
  case (Pair res ex')
  show ?thesis
  proof (cases res)
    case (Inl e)
    have "iterate (1 + k) (run_job_next ac) (Created j) ex = Some (run_job ac j ex)" for k
      using Pair Inl by (simp add: run_job_def)
    then show ?thesis by blast
  next
    case (Inr fs)
    have "iterate (Suc (length (ac fs)) + k) (run_job_next ac) (Created j) ex
        = Some (run_job ac j ex)" for k
    proof (cases "ac fs")
      case Nil
      then show ?thesis using Pair Inr by (simp add: run_job_def run_job_resume_def)
    next
      case (Cons p rest)
      obtain f r where p: "p = (f, r)" by (cases p)
      have "iterate (Suc (length rest + k)) (run_job_next ac) (Suspended j rest) ex'
          = Some (map snd rest, None, ex')"
        by (rule iterate_run_job_suspended)
      then show ?thesis
        using Pair Inr Cons p by (simp add: run_job_def run_job_resume_def)
    qed
    then show ?thesis by blast
  qed
qed

lemma iterate_async_run_job_suspended:
  "iterate (Suc (length stream + k)) (async_run_job_next ac) (Suspended j stream) ex =
     Some (async_consume j stream ex)"
  by (induction stream) (auto simp: async_run_job_resume_def split: prod.splits)

lemma iterate_async_run_job:
  "\<exists>n. \<forall>k. iterate (n + k) (async_run_job_next ac) (Created j) ex
     = Some (async_run_job ac j ex)"
proof (cases "get_futures j ex")
  case (Pair res ex')
  show ?thesis
  proof (cases res)
    case (Inl e)
    have "iterate (1 + k) (async_run_job_next ac) (Created j) ex
        = Some (async_run_job ac j ex)" for k
      using Pair Inl by (simp add: async_run_job_def)
    then show ?thesis by blast
  next
    case (Inr fs)
    let ?ex = "ex'\<lparr>futures := (futures ex')(j \<mapsto> fs)\<rparr>"
    have "iterate (Suc (length (ac fs) + k)) (async_run_job_next ac) (Suspended j (ac fs)) ?ex
        = Some (async_consume j (ac fs) ?ex)" for k
      by (rule iterate_async_run_job_suspended)
    moreover have "iterate (Suc n) (async_run_job_next ac) (Created j) ex
        = iterate (Suc n) (async_run_job_next ac) (Suspended j (ac fs)) ?ex" for n
      using Pair Inr by simp
    ultimately have "iterate (Suc (length (ac fs)) + k) (async_run_job_next ac) (Created j) ex
        = Some (async_run_job ac j ex)" for k
      using Pair Inr by (simp add: async_run_job_def)
    then show ?thesis by blast
  qed
qed

lemma iterate_run_job_created:
  assumes "get_futures j ex = (Inr fs, ex')"
  shows "iterate (Suc (length (ac fs))) (run_job_next ac) (Created j) ex
     = Some (map snd (ac fs), None, ex')"
proof (cases "ac fs")
  case Nil
  then show ?thesis using assms by (simp add: run_job_resume_def)
next
  case (Cons p rest)
  obtain f r where p: "p = (f, r)" by (cases p)
  have "iterate (Suc (length rest + 0)) (run_job_next ac) (Suspended j rest) ex'
      = Some (map snd rest, None, ex')"
    by (rule iterate_run_job_suspended)
  then show ?thesis
    using assms Cons p by (simp add: run_job_resume_def)
qed

lemma iterate_async_run_job_created:
  assumes "get_futures j ex = (Inr fs, ex')"
  shows "iterate (Suc (length (ac fs))) (async_run_job_next ac) (Created j) ex
     = Some (async_consume j (ac fs) (ex'\<lparr>futures := (futures ex')(j \<mapsto> fs)\<rparr>))"
proof -
  have "iterate (Suc (length (ac fs) + 0)) (async_run_job_next ac) (Suspended j (ac fs))
      (ex'\<lparr>futures := (futures ex')(j \<mapsto> fs)\<rparr>)
      = Some (async_consume j (ac fs) (ex'\<lparr>futures := (futures ex')(j \<mapsto> fs)\<rparr>))"
    by (rule iterate_async_run_job_suspended)
  then show ?thesis using assms by simp
qed

lemma get_futures_submit_all:
  assumes "client ex = Some c" "\<forall>t\<in>set (get_tasks j). get_locations t \<noteq> Some []"
  shows "get_futures j ex =
     (Inr (futures_of (get_tasks j) c), ex\<lparr>client := Some (submit_all (get_tasks j) c)\<rparr>)"
  unfolding futures_of_def submit_all_def using assms by (rule get_futures_ok)

text \<open>
  A pool that keeps the contract on the futures of a dispatched job delivers the results
  of the job's tasks, one for one: the callable logged for a future of the job is the
  task at the same position.
\<close>

lemma completes_results:
  assumes "completes ac result (submit_all ts c) (futures_of ts c)"
  shows "mset (map snd (ac (futures_of ts c))) = mset (map result ts)"
    and "length (ac (futures_of ts c)) = length ts"
    and "set (map fst (ac (futures_of ts c))) = set (futures_of ts c)"
proof -
  let ?n = "length (submitted c)"
  let ?stream = "ac (futures_of ts c)"
  have perm: "mset (map fst ?stream) = mset [?n ..< ?n + length ts]"
    using assms by (simp add: completes_def futures_of_def)
  then have mem: "set (map fst ?stream) = set [?n ..< ?n + length ts]"
    by (rule mset_eq_setD)
  then show "set (map fst ?stream) = set (futures_of ts c)"
    by (simp add: futures_of_def)
  have res: "\<forall>(f, r) \<in> set ?stream. r = result (ts ! (f - ?n))"
  proof (clarify)
    fix f r
    assume fr: "(f, r) \<in> set ?stream"
    then have "f \<in> set (map fst ?stream)" by force
    then have range: "?n \<le> f" "f - ?n < length ts"
      using mem by auto
    have "r = result (fst (submitted (submit_all ts c) ! f))"
      using assms fr by (auto simp: completes_def)
    then show "r = result (ts ! (f - ?n))"
      using range by (simp add: submit_all_def nth_append)
  qed
  from completion_results [OF perm res]
  show "mset (map snd ?stream) = mset (map result ts)"
    and "length ?stream = length ts"
    by simp_all
qed

text \<open>
  Claim C2, as the code has it. Take a job with N tasks none of which declares an empty
  location sequence and an executor with a client, and let the pool keep the contract of
  the completion stream on the job's futures: it delivers each of them once, with the
  result of the callable submitted for it, so that no task fails and no future is
  cancelled (for the asynchronous executor, none of the job's futures is marked
  cancelled). Then \<^verbatim>\<open>run_job\<close>, in both executors, submits exactly the job's tasks, in
  order, each with its locations; N + 1 calls of \<^verbatim>\<open>next\<close> exhaust it without an error;
  what it yields are the results the stream delivers, in the order of delivery (the
  order of completion, whatever the order of submission): N results, each the result of
  exactly one of the job's tasks. The asynchronous executor ends with the job out of its
  tracker.
\<close>

theorem run_job_yields_each_result_once:
  fixes ex :: "task executor" and aex :: "task async_executor"
  assumes c: "client ex = Some c" and d: "client aex = Some d"
    and located: "\<forall>t\<in>set (get_tasks j). get_locations t \<noteq> Some []"
    and sync_pool:
      "completes ac result (submit_all (get_tasks j) c) (futures_of (get_tasks j) c)"
    and async_pool:
      "completes ac result (submit_all (get_tasks j) d) (futures_of (get_tasks j) d)"
    and not_cancelled: "\<forall>f\<in>set (futures_of (get_tasks j) d). f \<notin> cancelled_keys d"
  shows
    "iterate (Suc (length (get_tasks j))) (run_job_next ac) (Created j) ex
       = Some (map snd (ac (futures_of (get_tasks j) c)), None,
               ex\<lparr>client := Some (submit_all (get_tasks j) c)\<rparr>)
     \<and> run_job ac j ex
       = (map snd (ac (futures_of (get_tasks j) c)), None,
          ex\<lparr>client := Some (submit_all (get_tasks j) c)\<rparr>)
     \<and> length (map snd (ac (futures_of (get_tasks j) c))) = length (get_tasks j)
     \<and> mset (map snd (ac (futures_of (get_tasks j) c))) = mset (map result (get_tasks j))
     \<and> iterate (Suc (length (get_tasks j))) (async_run_job_next ac) (Created j) aex
       = Some (map snd (ac (futures_of (get_tasks j) d)), None,
               aex\<lparr>client := Some (submit_all (get_tasks j) d),
                    futures := (futures aex)(j := None)\<rparr>)
     \<and> async_run_job ac j aex
       = (map snd (ac (futures_of (get_tasks j) d)), None,
          aex\<lparr>client := Some (submit_all (get_tasks j) d),
               futures := (futures aex)(j := None)\<rparr>)
     \<and> length (map snd (ac (futures_of (get_tasks j) d))) = length (get_tasks j)
     \<and> mset (map snd (ac (futures_of (get_tasks j) d))) = mset (map result (get_tasks j))"
proof -
  let ?ts = "get_tasks j"
  let ?fs = "futures_of ?ts c" and ?gs = "futures_of ?ts d"
  let ?ex' = "ex\<lparr>client := Some (submit_all ?ts c)\<rparr>"
  let ?reg = "aex\<lparr>client := Some (submit_all ?ts d), futures := (futures aex)(j \<mapsto> ?gs)\<rparr>"
  let ?end = "aex\<lparr>client := Some (submit_all ?ts d), futures := (futures aex)(j := None)\<rparr>"
  note sync = completes_results [OF sync_pool]
  note async = completes_results [OF async_pool]
  have g: "get_futures j ex = (Inr ?fs, ?ex')"
    using c located by (rule get_futures_submit_all)
  have run: "run_job ac j ex = (map snd (ac ?fs), None, ?ex')"
    by (simp add: run_job_def g)
  have it: "iterate (Suc (length ?ts)) (run_job_next ac) (Created j) ex
      = Some (map snd (ac ?fs), None, ?ex')"
    using iterate_run_job_created [OF g, of ac] sync(2) by simp
  have h: "get_futures j aex = (Inr ?gs, aex\<lparr>client := Some (submit_all ?ts d)\<rparr>)"
    using d located by (rule get_futures_submit_all)
  have live: "\<forall>(f, r) \<in> set (ac ?gs). \<not> future_cancelled ?reg f"
  proof (clarify)
    fix f r
    assume "(f, r) \<in> set (ac ?gs)" and cancelled: "future_cancelled ?reg f"
    then have "f \<in> set (map fst (ac ?gs))" by force
    then have "f \<in> set ?gs" using async(3) by simp
    then have "f \<notin> cancelled_keys d" using not_cancelled by blast
    then show False
      using cancelled by (simp add: future_cancelled_def submit_all_def)
  qed
  have tracked: "futures ?reg j = Some ?gs" by simp
  have "async_consume j (ac ?gs) ?reg
      = (map snd (ac ?gs), None, ?reg\<lparr>futures := (futures ?reg)(j := None)\<rparr>)"
    using live tracked by (rule async_consume_all)
  then have consume: "async_consume j (ac ?gs) ?reg = (map snd (ac ?gs), None, ?end)"
    by simp
  have arun: "async_run_job ac j aex = (map snd (ac ?gs), None, ?end)"
    using consume by (simp add: async_run_job_def h)
  have ait: "iterate (Suc (length ?ts)) (async_run_job_next ac) (Created j) aex
      = Some (map snd (ac ?gs), None, ?end)"
    using iterate_async_run_job_created [OF h, of ac] async(2) consume by simp
  show ?thesis
    using it run sync(1,2) ait arun async(1,2) by simp
qed

text \<open>
  Three tasks that return 0, 1 and 2, free to run anywhere, completing in the reverse of
  the submission order: both executors submit the three tasks and yield 2, 1, 0.
\<close>

theorem run_job_yields_each_result_once_witness:
  "client (sync_executor :: task executor) = Some fresh_client
   \<and> client (async_executor :: task async_executor) = Some fresh_client
   \<and> list_all (\<lambda>t. get_locations t \<noteq> Some []) (get_tasks job_three)
   \<and> completes (reverse_completion (get_tasks job_three)) task_result
        (submit_all (get_tasks job_three) fresh_client)
        (futures_of (get_tasks job_three) fresh_client)
   \<and> cancelled_keys (fresh_client :: task client) = {}
   \<and> length (get_tasks job_three) = 3
   \<and> run_job (reverse_completion (get_tasks job_three)) job_three sync_executor
       = ([2, 1, 0], None,
          sync_executor\<lparr>client := Some (submit_all (get_tasks job_three) fresh_client)\<rparr>)
   \<and> fst (async_run_job (reverse_completion (get_tasks job_three)) job_three async_executor)
       = [2, 1, 0]
   \<and> map fst (submitted (submit_all (get_tasks job_three) fresh_client))
       = get_tasks job_three"
proof -
  let ?ac = "reverse_completion (get_tasks job_three)"
  have h1: "client (sync_executor :: task executor) = Some fresh_client"
    by (simp add: sync_executor_def)
  have h2: "client (async_executor :: task async_executor) = Some fresh_client"
    by (simp add: async_executor_def)
  have h3: "\<forall>t\<in>set (get_tasks job_three). get_locations t \<noteq> Some []"
    by (simp add: job_three_def)
  have len: "length (get_tasks job_three) = 3"
    by (simp add: job_three_def)
  have fs: "futures_of (get_tasks job_three) fresh_client = [0, 1, 2]"
    unfolding futures_of_def len by (simp add: fresh_client_def upt_conv_Cons)
  have stream: "?ac [0, 1, 2] = [(2, 2), (1, 1), (0, 0)]"
    by (simp add: reverse_completion_def job_three_def task_result_def)
  have h4: "completes ?ac task_result (submit_all (get_tasks job_three) fresh_client)
      (futures_of (get_tasks job_three) fresh_client)"
    unfolding completes_def fs stream
    by (simp add: job_three_def task_result_def submit_all_def fresh_client_def)
  have h5: "\<forall>f\<in>set (futures_of (get_tasks job_three) fresh_client).
      f \<notin> cancelled_keys (fresh_client :: task client)"
    by (simp add: fresh_client_def)
  note inst = run_job_yields_each_result_once [OF h1 h2 h3 h4 h4 h5, unfolded fs stream]
  have r1: "run_job ?ac job_three sync_executor
       = ([2, 1, 0], None,
          sync_executor\<lparr>client := Some (submit_all (get_tasks job_three) fresh_client)\<rparr>)"
    using inst [THEN conjunct2, THEN conjunct1] by simp
  have "async_run_job ?ac job_three async_executor
       = (map snd [(2::nat, 2::nat), (1, 1), (0, 0)], None,
          async_executor\<lparr>client := Some (submit_all (get_tasks job_three) fresh_client),
               futures := (futures (async_executor :: task async_executor))
                 (job_three := None)\<rparr>)"
    using inst by simp
  then have r2: "fst (async_run_job ?ac job_three async_executor) = [2, 1, 0]" by simp
  have h3': "list_all (\<lambda>t. get_locations t \<noteq> Some []) (get_tasks job_three)"
    using h3 by (simp add: list_all_iff)
  have h5': "cancelled_keys (fresh_client :: task client) = {}"
    by (simp add: fresh_client_def)
  have log: "map fst (submitted (submit_all (get_tasks job_three) fresh_client))
       = get_tasks job_three"
    by (simp add: submit_all_def fresh_client_def comp_def)
  show ?thesis
    using h1 h2 h3' h4 h5' len r1 r2 log by simp
qed

text \<open>
  The claim as stated fails on a job whose only task declares an empty location sequence:
  the job has one task and \<^verbatim>\<open>run_job\<close> raises without yielding anything, in both
  executors.
\<close>

theorem run_job_yields_nothing_for_empty_locations:
  "length (get_tasks job_nowhere) = 1
   \<and> run_job (reverse_completion (get_tasks job_nowhere)) job_nowhere sync_executor =
       ([], Some (ValueError ''no workers found for task''), sync_executor)
   \<and> fst (async_run_job (reverse_completion (get_tasks job_nowhere)) job_nowhere
            async_executor) = []
   \<and> fst (snd (async_run_job (reverse_completion (get_tasks job_nowhere)) job_nowhere
            async_executor)) = Some (ValueError ''no workers found for task'')"
  by (simp add: run_job_def async_run_job_def get_futures_def job_nowhere_def
      task_nowhere_def Let_def)

section \<open>The tracker of the asynchronous executor\<close>

text \<open>The dispatch neither reads nor writes the tracker.\<close>

lemma get_futures_loop_futures:
  "get_futures_loop ts futs (ex\<lparr>futures := m\<rparr>) =
     (case get_futures_loop ts futs ex of (r, ex') \<Rightarrow> (r, ex'\<lparr>futures := m\<rparr>))"
proof (induction ts arbitrary: futs ex)
  case Nil
  show ?case by simp
next
  case (Cons t ts)
  show ?case
  proof (cases "case get_locations t of None \<Rightarrow> False | Some ls \<Rightarrow> length ls = 0")
    case True
    then show ?thesis by simp
  next
    case ok: False
    show ?thesis
    proof (cases "client ex")
      case None
      then show ?thesis using ok by simp
    next
      case (Some c)
      let ?c' = "c\<lparr>submitted := submitted c @ [(t, get_locations t)]\<rparr>"
      let ?futs = "futs @ [length (submitted c)]"
      have comm: "ex\<lparr>futures := m\<rparr>\<lparr>client := Some ?c'\<rparr> = ex\<lparr>client := Some ?c'\<rparr>\<lparr>futures := m\<rparr>"
        by (cases ex) simp
      have "get_futures_loop (t # ts) futs (ex\<lparr>futures := m\<rparr>) =
          get_futures_loop ts ?futs (ex\<lparr>futures := m\<rparr>\<lparr>client := Some ?c'\<rparr>)"
        using ok Some by (simp add: submit_def Let_def)
      also have "\<dots> = get_futures_loop ts ?futs (ex\<lparr>client := Some ?c'\<rparr>\<lparr>futures := m\<rparr>)"
        by (simp only: comm)
      also have "\<dots> = (case get_futures_loop ts ?futs (ex\<lparr>client := Some ?c'\<rparr>) of
          (r, ex') \<Rightarrow> (r, ex'\<lparr>futures := m\<rparr>))"
        by (rule Cons.IH)
      also have "get_futures_loop ts ?futs (ex\<lparr>client := Some ?c'\<rparr>) =
          get_futures_loop (t # ts) futs ex"
        using ok Some by (simp add: submit_def Let_def)
      finally show ?thesis .
    qed
  qed
qed

lemma get_futures_futures:
  "get_futures j (ex\<lparr>futures := m\<rparr>) =
     (case get_futures j ex of (r, ex') \<Rightarrow> (r, ex'\<lparr>futures := m\<rparr>))"
  by (simp add: get_futures_def get_futures_loop_futures)

lemma get_futures_loop_keeps_futures:
  "get_futures_loop ts futs ex = (r, ex') \<Longrightarrow> futures ex' = futures ex"
  by (induction ts arbitrary: futs ex) (auto simp: Let_def split: option.splits prod.splits if_splits)

lemma get_futures_keeps_futures:
  "get_futures j ex = (r, ex') \<Longrightarrow> futures ex' = futures ex"
  unfolding get_futures_def by (rule get_futures_loop_keeps_futures)

text \<open>
  A stream consumed on a tracked job ends in one of two ways: it is exhausted and the
  entry is deleted, or a cancelled future is met and the executor is left as it was.
\<close>

lemma async_consume_outcome:
  "futures ex j = Some fs \<Longrightarrow> async_consume j stream ex = (ys, e, ex') \<Longrightarrow>
   (e = None \<and> ex' = ex\<lparr>futures := (futures ex)(j := None)\<rparr>)
   \<or> (e = Some JobCancelledError \<and> ex' = ex)"
  by (induction stream arbitrary: ys) (auto simp: domI split: if_splits prod.splits)

lemma async_consume_cancelled:
  "future_cancelled ex f \<Longrightarrow> \<forall>(g, q) \<in> set pre. \<not> future_cancelled ex g \<Longrightarrow>
   async_consume j (pre @ (f, r) # rest) ex = (map snd pre, Some JobCancelledError, ex)"
  by (induction pre) auto

text \<open>
  Claim C3, as the code has it. \<^verbatim>\<open>run_job\<close> makes no check for a job that is already
  tracked. Take a job that is tracked, with whatever futures, whose tasks all have
  eligible workers, on an executor with a client: the first resumption of a new
  \<^verbatim>\<open>run_job\<close> on it submits the tasks again and assigns the new futures to the job's
  key, replacing the entry, and then gives the first result of the new stream (or, when
  that future is cancelled, the cancellation error; or, when the stream is empty, the
  end of the iteration with the entry deleted). That is, step for step, what it does on
  a job that is not tracked; no other error is raised. The synchronous executor has no
  tracker and submits the tasks again likewise. The tracker is a dict, so a job has at
  most one entry at any time.
\<close>

theorem run_job_on_tracked_job:
  fixes ex :: "task executor" and aex :: "task async_executor"
  assumes tracked: "futures aex j = Some old"
    and d: "client aex = Some d" and c: "client ex = Some c"
    and located: "\<forall>t\<in>set (get_tasks j). get_locations t \<noteq> Some []"
  shows
    "async_run_job_next ac (Created j) aex =
       (case ac (futures_of (get_tasks j) d) of
          [] \<Rightarrow>
            (StopIteration, Closed,
             aex\<lparr>client := Some (submit_all (get_tasks j) d),
                  futures := (futures aex)(j := None)\<rparr>)
        | (f, r) # rest \<Rightarrow>
            if f \<in> cancelled_keys d
            then (Raise JobCancelledError, Closed,
                  aex\<lparr>client := Some (submit_all (get_tasks j) d),
                       futures := (futures aex)(j \<mapsto> futures_of (get_tasks j) d)\<rparr>)
            else (Yield r, Suspended j rest,
                  aex\<lparr>client := Some (submit_all (get_tasks j) d),
                       futures := (futures aex)(j \<mapsto> futures_of (get_tasks j) d)\<rparr>))
     \<and> async_run_job_next ac (Created j) aex
       = async_run_job_next ac (Created j) (aex\<lparr>futures := (futures aex)(j := None)\<rparr>)
     \<and> run_job_next ac (Created j) ex =
       (case ac (futures_of (get_tasks j) c) of
          [] \<Rightarrow> (StopIteration, Closed, ex\<lparr>client := Some (submit_all (get_tasks j) c)\<rparr>)
        | (f, r) # rest \<Rightarrow>
            (Yield r, Suspended j rest, ex\<lparr>client := Some (submit_all (get_tasks j) c)\<rparr>))"
proof -
  let ?ts = "get_tasks j"
  let ?untracked = "aex\<lparr>futures := (futures aex)(j := None)\<rparr>"
  have g: "get_futures j aex
      = (Inr (futures_of ?ts d), aex\<lparr>client := Some (submit_all ?ts d)\<rparr>)"
    using d located by (rule get_futures_submit_all)
  have "client ?untracked = Some d" using d by simp
  then have "get_futures j ?untracked
      = (Inr (futures_of ?ts d), ?untracked\<lparr>client := Some (submit_all ?ts d)\<rparr>)"
    using located by (rule get_futures_submit_all)
  moreover have "?untracked\<lparr>client := Some (submit_all ?ts d)\<rparr>
      = aex\<lparr>client := Some (submit_all ?ts d)\<rparr>\<lparr>futures := (futures aex)(j := None)\<rparr>"
    by (cases aex) simp
  ultimately have u: "get_futures j ?untracked
      = (Inr (futures_of ?ts d),
         aex\<lparr>client := Some (submit_all ?ts d)\<rparr>\<lparr>futures := (futures aex)(j := None)\<rparr>)"
    by simp
  have s: "get_futures j ex
      = (Inr (futures_of ?ts c), ex\<lparr>client := Some (submit_all ?ts c)\<rparr>)"
    using c located by (rule get_futures_submit_all)
  have first: "async_run_job_next ac (Created j) aex =
       (case ac (futures_of ?ts d) of
          [] \<Rightarrow>
            (StopIteration, Closed,
             aex\<lparr>client := Some (submit_all ?ts d), futures := (futures aex)(j := None)\<rparr>)
        | (f, r) # rest \<Rightarrow>
            if f \<in> cancelled_keys d
            then (Raise JobCancelledError, Closed,
                  aex\<lparr>client := Some (submit_all ?ts d),
                       futures := (futures aex)(j \<mapsto> futures_of ?ts d)\<rparr>)
            else (Yield r, Suspended j rest,
                  aex\<lparr>client := Some (submit_all ?ts d),
                       futures := (futures aex)(j \<mapsto> futures_of ?ts d)\<rparr>))"
    by (simp add: g async_run_job_resume_def future_cancelled_def submit_all_def
        split: list.splits)
  have same: "async_run_job_next ac (Created j) aex
      = async_run_job_next ac (Created j) ?untracked"
    by (simp add: g u async_run_job_resume_def future_cancelled_def split: list.splits)
  have sync: "run_job_next ac (Created j) ex =
       (case ac (futures_of ?ts c) of
          [] \<Rightarrow> (StopIteration, Closed, ex\<lparr>client := Some (submit_all ?ts c)\<rparr>)
        | (f, r) # rest \<Rightarrow>
            (Yield r, Suspended j rest, ex\<lparr>client := Some (submit_all ?ts c)\<rparr>))"
    by (simp add: s run_job_resume_def split: list.splits)
  show ?thesis
    using first same sync by (intro conjI)
qed

text \<open>
  A job that is tracked with future 7 is started again: its first resumption yields the
  first result of the new run, and the job's entry then holds futures 0 and 1.
\<close>

theorem run_job_on_tracked_job_witness:
  "futures async_executor_tracking job_ok = Some [7]
   \<and> client async_executor_tracking = Some fresh_client
   \<and> client (sync_executor :: task executor) = Some fresh_client
   \<and> list_all (\<lambda>t. get_locations t \<noteq> Some []) (get_tasks job_ok)
   \<and> (case async_run_job_next (reverse_completion (get_tasks job_ok)) (Created job_ok)
             async_executor_tracking of
         (s, g, aex') \<Rightarrow>
           s = Yield 1 \<and> g = Suspended job_ok [(0, 0)] \<and> futures aex' job_ok = Some [0, 1])
   \<and> fst (run_job_next (reverse_completion (get_tasks job_ok)) (Created job_ok)
             sync_executor) = Yield 1"
proof -
  let ?ac = "reverse_completion (get_tasks job_ok)"
  have h1: "futures async_executor_tracking job_ok = Some [7]"
    by (simp add: async_executor_tracking_def)
  have h2: "client async_executor_tracking = Some fresh_client"
    by (simp add: async_executor_tracking_def)
  have h3: "client (sync_executor :: task executor) = Some fresh_client"
    by (simp add: sync_executor_def)
  have h4: "\<forall>t\<in>set (get_tasks job_ok). get_locations t \<noteq> Some []"
    by (simp add: job_ok_def task_a_def task_any_def)
  have fs: "futures_of (get_tasks job_ok) fresh_client = [0, 1]"
    by (simp add: futures_of_def job_ok_def fresh_client_def upt_conv_Cons)
  have stream: "?ac [0, 1] = [(1, 1), (0, 0)]"
    by (simp add: reverse_completion_def job_ok_def task_result_def task_a_def task_any_def)
  have live: "1 \<notin> cancelled_keys (fresh_client :: task client)"
    by (simp add: fresh_client_def)
  note inst = run_job_on_tracked_job [OF h1 h2 h3 h4, of ?ac, unfolded fs stream]
  have a: "async_run_job_next ?ac (Created job_ok) async_executor_tracking
      = (Yield 1, Suspended job_ok [(0, 0)],
         async_executor_tracking\<lparr>client := Some (submit_all (get_tasks job_ok) fresh_client),
           futures := (futures async_executor_tracking)(job_ok \<mapsto> [0, 1])\<rparr>)"
    using inst [THEN conjunct1] live by simp
  have s: "run_job_next ?ac (Created job_ok) sync_executor
      = (Yield 1, Suspended job_ok [(0, 0)],
         sync_executor\<lparr>client := Some (submit_all (get_tasks job_ok) fresh_client)\<rparr>)"
    using inst [THEN conjunct2, THEN conjunct2] by simp
  have h4': "list_all (\<lambda>t. get_locations t \<noteq> Some []) (get_tasks job_ok)"
    using h4 by (simp add: list_all_iff)
  show ?thesis
    unfolding a s using h1 h2 h3 h4' by simp
qed

text \<open>
  A job of two tasks is started; after the first result its generator is suspended and
  the job is tracked with futures 0 and 1. A second \<^verbatim>\<open>run_job\<close> on the same job then
  yields a result as well, no error is raised, and the job's entry holds futures 2 and 3.
  The synchronous executor has no tracker at all: its second \<^verbatim>\<open>run_job\<close> yields too.
\<close>

theorem second_run_job_raises_nothing:
  "(case async_run_job_next (reverse_completion (get_tasks job_ok)) (Created job_ok)
           async_executor of
      (s1, g1, ex1) \<Rightarrow>
        s1 = Yield 1 \<and> g1 = Suspended job_ok [(0, 0)] \<and> futures ex1 job_ok = Some [0, 1]
        \<and> (case async_run_job_next (reverse_completion (get_tasks job_ok)) (Created job_ok)
                   ex1 of
              (s2, g2, ex2) \<Rightarrow>
                s2 = Yield 1 \<and> g2 = Suspended job_ok [(2, 0)]
                \<and> futures ex2 job_ok = Some [2, 3]))
   \<and> (case run_job_next (reverse_completion (get_tasks job_ok)) (Created job_ok)
           sync_executor of
      (s1, g1, ex1) \<Rightarrow>
        s1 = Yield 1 \<and> g1 = Suspended job_ok [(0, 0)]
        \<and> (case run_job_next (reverse_completion (get_tasks job_ok)) (Created job_ok)
                   ex1 of
              (s2, g2, ex2) \<Rightarrow> s2 = Yield 1 \<and> g2 = Suspended job_ok [(2, 0)]))"
  by (simp add: get_futures_def job_ok_def task_a_def task_any_def sync_executor_def
      async_executor_def fresh_client_def submit_def future_cancelled_def Let_def
      reverse_completion_def task_result_def async_run_job_resume_def run_job_resume_def)

section \<open>Cancellation\<close>

text \<open>
  Claim C4, as the code has it. In the asynchronous executor, when the next future the
  stream delivers is cancelled, \<^verbatim>\<open>run_job\<close> raises the cancellation error
  (\<^verbatim>\<open>JobCancelledError\<close> in the code) to the caller instead of yielding that future's
  result, the executor is left as it was, and the generator is finished: iterated to the
  end, the job gives the results delivered before the cancelled future and then the
  error. The synchronous executor asks no future whether it was cancelled: it yields
  what the stream delivers.
\<close>

theorem cancelled_future_raises_in_async_run_job:
  fixes ex :: "task executor" and aex :: "task async_executor"
  assumes "future_cancelled aex f"
    and "\<forall>(g, q) \<in> set pre. \<not> future_cancelled aex g"
  shows
    "async_run_job_next ac (Suspended j ((f, r) # rest)) aex
       = (Raise JobCancelledError, Closed, aex)
     \<and> async_run_job_next ac Closed aex = (StopIteration, Closed, aex)
     \<and> async_consume j (pre @ (f, r) # rest) aex = (map snd pre, Some JobCancelledError, aex)
     \<and> run_job_next ac (Suspended j ((f, r) # rest)) ex = (Yield r, Suspended j rest, ex)"
  using assms
  by (simp add: async_run_job_resume_def run_job_resume_def async_consume_cancelled)

text \<open>
  A job of two tasks on the asynchronous executor: the first result is yielded, then
  \<^verbatim>\<open>cancel_job\<close> cancels futures 0 and 1, and the next resumption raises.
\<close>

theorem cancelled_future_raises_in_async_run_job_witness:
  "(case async_run_job_next (reverse_completion (get_tasks job_ok)) (Created job_ok)
           async_executor of
      (s1, g1, ex1) \<Rightarrow>
        s1 = Yield 1 \<and> g1 = Suspended job_ok [(0, 0)]
        \<and> (case cancel_job job_ok ex1 of
              (c, ex2) \<Rightarrow>
                c = Inr () \<and> future_cancelled ex2 0
                \<and> async_run_job_next (reverse_completion (get_tasks job_ok)) g1 ex2
                    = (Raise JobCancelledError, Closed, ex2)))"
proof -
  let ?ac = "reverse_completion (get_tasks job_ok)"
  obtain s1 g1 ex1 where first: "async_run_job_next ?ac (Created job_ok) async_executor
      = (s1, g1, ex1)"
    by (cases "async_run_job_next ?ac (Created job_ok) async_executor") auto
  obtain c ex2 where cancel: "cancel_job job_ok ex1 = (c, ex2)"
    by (cases "cancel_job job_ok ex1")
  have s1: "s1 = Yield 1" and g1: "g1 = Suspended job_ok [(0, 0)]"
    and tracked: "futures ex1 job_ok = Some [0, 1]"
    and cl: "client ex1 \<noteq> None"
    using first
    by (auto simp add: get_futures_def job_ok_def task_a_def task_any_def
        async_executor_def fresh_client_def submit_def future_cancelled_def Let_def
        reverse_completion_def task_result_def async_run_job_resume_def)
  have c: "c = Inr ()" and h: "future_cancelled ex2 0"
    using cancel tracked cl
    by (auto simp add: cancel_job_def cancel_def future_cancelled_def split: option.splits)
  have "async_run_job_next ?ac (Suspended job_ok ((0, 0) # [])) ex2
      = (Raise JobCancelledError, Closed, ex2)"
    using cancelled_future_raises_in_async_run_job [OF h, of "[]" ?ac job_ok 0 "[]"]
    by simp
  then show ?thesis
    unfolding first using s1 g1 c h by (simp add: cancel)
qed

text \<open>
  The same job on the synchronous executor: the first result is yielded, then future 0 is
  cancelled at the pool, and the next resumption yields the result delivered for future 0
  all the same; no error is raised.
\<close>

theorem sync_run_job_yields_cancelled_future:
  "(case run_job_next (reverse_completion (get_tasks job_ok)) (Created job_ok)
           sync_executor of
      (s1, g1, ex1) \<Rightarrow>
        s1 = Yield 1 \<and> g1 = Suspended job_ok [(0, 0)]
        \<and> future_cancelled (ex1\<lparr>client := map_option (cancel [0]) (client ex1)\<rparr>) 0
        \<and> run_job_next (reverse_completion (get_tasks job_ok)) g1
              (ex1\<lparr>client := map_option (cancel [0]) (client ex1)\<rparr>)
            = (Yield 0, Suspended job_ok [],
               ex1\<lparr>client := map_option (cancel [0]) (client ex1)\<rparr>))"
  by (simp add: get_futures_def job_ok_def task_a_def task_any_def sync_executor_def
      fresh_client_def submit_def future_cancelled_def Let_def cancel_def
      reverse_completion_def task_result_def run_job_resume_def)

section \<open>When a job leaves the tracker\<close>

lemma iterate_more_fuel:
  "iterate n nxt g s = Some x \<Longrightarrow> iterate (n + k) nxt g s = Some x"
proof (induction n arbitrary: g s x)
  case 0
  then show ?case by simp
next
  case (Suc n)
  obtain sig g' s' where step: "nxt g s = (sig, g', s')"
    by (cases "nxt g s")
  show ?case
  proof (cases sig)
    case (Yield r)
    with Suc.prems step obtain ys e s'' where
      rest: "iterate n nxt g' s' = Some (ys, e, s'')" and x: "x = (r # ys, e, s'')"
      by (auto split: option.splits)
    from Suc.IH [OF rest] show ?thesis
      using step Yield x by simp
  next
    case StopIteration
    with Suc.prems step show ?thesis by simp
  next
    case (Raise e)
    with Suc.prems step show ?thesis by simp
  qed
qed

text \<open>However many calls of \<^verbatim>\<open>next\<close> it took, an iteration that ended is the run.\<close>

lemma iterate_async_run_job_result:
  assumes "iterate n (async_run_job_next ac) (Created j) ex = Some x"
  shows "x = async_run_job ac j ex"
proof -
  obtain m where m: "\<forall>k. iterate (m + k) (async_run_job_next ac) (Created j) ex
      = Some (async_run_job ac j ex)"
    using iterate_async_run_job by blast
  have "iterate (n + m) (async_run_job_next ac) (Created j) ex = Some x"
    using assms by (rule iterate_more_fuel)
  moreover have "iterate (m + n) (async_run_job_next ac) (Created j) ex
      = Some (async_run_job ac j ex)"
    using m by blast
  ultimately show ?thesis by (simp add: add.commute)
qed

lemma get_futures_loop_errors:
  "get_futures_loop ts futs ex = (Inl e, ex') \<Longrightarrow>
   e = ValueError ''no workers found for task'' \<or> e = AttributeError"
  by (induction ts arbitrary: futs ex)
     (auto simp: Let_def split: option.splits prod.splits if_splits)

text \<open>
  The three ways a run of the asynchronous \<^verbatim>\<open>run_job\<close> ends: the dispatch raises and
  the tracker is as before; the stream is exhausted and the job's entry is deleted; a
  cancelled future is met and the job's entry holds the futures of this run.
\<close>

lemma async_run_job_outcome:
  assumes "async_run_job ac j aex = (ys, e, aex')"
  shows "(e \<noteq> None \<and> e \<noteq> Some JobCancelledError \<and> futures aex' = futures aex)
    \<or> (e = None \<and> futures aex' = (futures aex)(j := None))
    \<or> (e = Some JobCancelledError \<and> (\<exists>fs. futures aex' = (futures aex)(j \<mapsto> fs)))"
proof (cases "get_futures j aex")
  case (Pair res ex1)
  have keep: "futures ex1 = futures aex"
    using Pair by (rule get_futures_keeps_futures)
  show ?thesis
  proof (cases res)
    case (Inl err)
    have "err = ValueError ''no workers found for task'' \<or> err = AttributeError"
      using Pair Inl get_futures_loop_errors [of "get_tasks j" "[]" aex err ex1]
      by (simp add: get_futures_def)
    then show ?thesis
      using assms Pair Inl keep by (auto simp: async_run_job_def)
  next
    case (Inr fs)
    let ?reg = "ex1\<lparr>futures := (futures ex1)(j \<mapsto> fs)\<rparr>"
    have run: "async_consume j (ac fs) ?reg = (ys, e, aex')"
      using assms Pair Inr by (simp add: async_run_job_def)
    have "futures ?reg j = Some fs" by simp
    from async_consume_outcome [OF this run]
    show ?thesis using keep by auto
  qed
qed

lemma iterate_async_consume_result:
  assumes "iterate n (async_run_job_next ac) (Suspended j stream) ex = Some x"
  shows "x = async_consume j stream ex"
proof -
  have "iterate (n + Suc (length stream)) (async_run_job_next ac) (Suspended j stream) ex
      = Some x"
    using assms by (rule iterate_more_fuel)
  moreover have "iterate (Suc (length stream + n)) (async_run_job_next ac)
      (Suspended j stream) ex = Some (async_consume j stream ex)"
    by (rule iterate_async_run_job_suspended)
  ultimately show ?thesis by (simp add: add.commute)
qed

lemma async_consume_untracked:
  "futures ex j = None \<Longrightarrow> async_consume j stream ex = (ys, e, ex') \<Longrightarrow>
   e \<noteq> None \<and> ex' = ex"
  by (induction stream arbitrary: ys) (auto simp: domIff split: if_splits prod.splits)

text \<open>
  How an iteration of the asynchronous \<^verbatim>\<open>run_job\<close> on a job ends, from its start or
  from a suspended generator, with nothing else touching the executor in between.
\<close>

lemma async_iteration_end:
  fixes aex :: "task async_executor"
  assumes run: "iterate n (async_run_job_next ac) g aex = Some (ys, e, aex')"
    and g: "g = Created j \<or> g = Suspended j stream"
  shows "(e = Some JobCancelledError \<and> g = Created j \<longrightarrow> j \<in> dom (futures aex'))
    \<and> (e = Some JobCancelledError \<and> g = Suspended j stream \<longrightarrow> aex' = aex)
    \<and> (e \<noteq> None \<and> j \<in> dom (futures aex) \<longrightarrow> j \<in> dom (futures aex'))
    \<and> (e = None \<longrightarrow> j \<notin> dom (futures aex'))"
  using g
proof
  assume c: "g = Created j"
  have "async_run_job ac j aex = (ys, e, aex')"
    using iterate_async_run_job_result [of n ac j aex] run c by simp
  from async_run_job_outcome [OF this]
  show ?thesis using c by auto
next
  assume s: "g = Suspended j stream"
  have consume: "async_consume j stream aex = (ys, e, aex')"
    using iterate_async_consume_result [of n ac j stream aex] run s by simp
  show ?thesis
  proof (cases "futures aex j")
    case None
    from async_consume_untracked [OF None consume]
    show ?thesis using None s by (auto simp: domIff)
  next
    case (Some fs)
    from async_consume_outcome [OF Some consume]
    show ?thesis using Some s by (auto simp: domIff)
  qed
qed

text \<open>
  Claim C7. Take a job whose tasks all have eligible workers, on an asynchronous
  executor with a client, tracked or not at the start, and let no future that the stream
  delivers be cancelled. Then the iteration of \<^verbatim>\<open>run_job\<close> comes to its end without an
  error; while it is under way the job is tracked with the futures of this run, and
  when it has ended the job is not in the tracker, whatever entry it had at the start.
  A \<^verbatim>\<open>cancel_job\<close> on it then returns without an error and leaves the executor, and so
  the pool with its record of cancellation requests, exactly as it was. More generally,
  whenever an iteration of \<^verbatim>\<open>run_job\<close> on the job, from its start or from a suspended
  generator and in whatever state of the executor, has ended without an error, the job
  is not in the tracker and \<^verbatim>\<open>cancel_job\<close> on it changes nothing.
\<close>

theorem exhausted_job_is_untracked:
  fixes aex :: "task async_executor"
  assumes d: "client aex = Some d"
    and located: "\<forall>t\<in>set (get_tasks j). get_locations t \<noteq> Some []"
    and live: "\<forall>(f, r) \<in> set (ac (futures_of (get_tasks j) d)). f \<notin> cancelled_keys d"
  shows
    "iterate (Suc (length (ac (futures_of (get_tasks j) d)))) (async_run_job_next ac)
         (Created j) aex
       = Some (map snd (ac (futures_of (get_tasks j) d)), None,
               aex\<lparr>client := Some (submit_all (get_tasks j) d),
                    futures := (futures aex)(j := None)\<rparr>)
     \<and> cancel_job j (aex\<lparr>client := Some (submit_all (get_tasks j) d),
                           futures := (futures aex)(j := None)\<rparr>)
       = (Inr (), aex\<lparr>client := Some (submit_all (get_tasks j) d),
                       futures := (futures aex)(j := None)\<rparr>)
     \<and> (\<forall>f r rest. ac (futures_of (get_tasks j) d) = (f, r) # rest \<longrightarrow>
          async_run_job_next ac (Created j) aex
            = (Yield r, Suspended j rest,
               aex\<lparr>client := Some (submit_all (get_tasks j) d),
                    futures := (futures aex)(j \<mapsto> futures_of (get_tasks j) d)\<rparr>))
     \<and> (\<forall>n g stream ys (aex0 :: task async_executor) aex'.
          iterate n (async_run_job_next ac) g aex0 = Some (ys, None, aex')
          \<and> (g = Created j \<or> g = Suspended j stream) \<longrightarrow>
          j \<notin> dom (futures aex') \<and> cancel_job j aex' = (Inr (), aex'))"
proof -
  let ?ts = "get_tasks j"
  let ?fs = "futures_of ?ts d"
  let ?reg = "aex\<lparr>client := Some (submit_all ?ts d), futures := (futures aex)(j \<mapsto> ?fs)\<rparr>"
  let ?end = "aex\<lparr>client := Some (submit_all ?ts d), futures := (futures aex)(j := None)\<rparr>"
  have g: "get_futures j aex = (Inr ?fs, aex\<lparr>client := Some (submit_all ?ts d)\<rparr>)"
    using d located by (rule get_futures_submit_all)
  have alive: "\<forall>(f, r) \<in> set (ac ?fs). \<not> future_cancelled ?reg f"
    using live by (auto simp: future_cancelled_def submit_all_def)
  have tracked: "futures ?reg j = Some ?fs" by simp
  have "async_consume j (ac ?fs) ?reg
      = (map snd (ac ?fs), None, ?reg\<lparr>futures := (futures ?reg)(j := None)\<rparr>)"
    using alive tracked by (rule async_consume_all)
  then have consume: "async_consume j (ac ?fs) ?reg = (map snd (ac ?fs), None, ?end)"
    by simp
  have run: "iterate (Suc (length (ac ?fs))) (async_run_job_next ac) (Created j) aex
      = Some (map snd (ac ?fs), None, ?end)"
    using iterate_async_run_job_created [OF g, of ac] consume by simp
  have noop: "cancel_job j ?end = (Inr (), ?end)"
    by (simp add: cancel_job_def)
  have first: "\<forall>f r rest. ac ?fs = (f, r) # rest \<longrightarrow>
      async_run_job_next ac (Created j) aex = (Yield r, Suspended j rest, ?reg)"
    using alive by (auto simp: g async_run_job_resume_def)
  have general: "\<forall>n g stream ys (aex0 :: task async_executor) aex'.
      iterate n (async_run_job_next ac) g aex0 = Some (ys, None, aex')
      \<and> (g = Created j \<or> g = Suspended j stream) \<longrightarrow>
      j \<notin> dom (futures aex') \<and> cancel_job j aex' = (Inr (), aex')"
  proof (intro allI impI, elim conjE)
    fix n g stream ys and aex0 aex' :: "task async_executor"
    assume it: "iterate n (async_run_job_next ac) g aex0 = Some (ys, None, aex')"
      and gen: "g = Created j \<or> g = Suspended j stream"
    have out: "j \<notin> dom (futures aex')"
      using async_iteration_end [OF it gen] by simp
    then show "j \<notin> dom (futures aex') \<and> cancel_job j aex' = (Inr (), aex')"
      by (simp add: cancel_job_def domIff)
  qed
  show ?thesis
    using run noop first general by (intro conjI)
qed

text \<open>
  A job of two tasks that is still tracked with future 7 from an earlier run: three calls
  of \<^verbatim>\<open>next\<close> yield 1 and 0 and end the iteration, the job is then not tracked, and
  \<^verbatim>\<open>cancel_job\<close> on it leaves the executor as it is, with no cancellation request made.
\<close>

theorem exhausted_job_is_untracked_witness:
  "futures async_executor_tracking job_ok = Some [7]
   \<and> client async_executor_tracking = Some fresh_client
   \<and> list_all (\<lambda>t. get_locations t \<noteq> Some []) (get_tasks job_ok)
   \<and> cancelled_keys (fresh_client :: task client) = {}
   \<and> (case iterate 3 (async_run_job_next (reverse_completion (get_tasks job_ok)))
           (Created job_ok) async_executor_tracking of
         None \<Rightarrow> False
       | Some (ys, e, aex') \<Rightarrow>
           ys = [1, 0] \<and> e = None \<and> futures aex' job_ok = None
           \<and> cancel_job job_ok aex' = (Inr (), aex')
           \<and> map_option cancel_requests (client aex') = Some [])"
proof -
  let ?ac = "reverse_completion (get_tasks job_ok)"
  have h1: "futures async_executor_tracking job_ok = Some [7]"
    by (simp add: async_executor_tracking_def)
  have h2: "client async_executor_tracking = Some fresh_client"
    by (simp add: async_executor_tracking_def)
  have h3: "\<forall>t\<in>set (get_tasks job_ok). get_locations t \<noteq> Some []"
    by (simp add: job_ok_def task_a_def task_any_def)
  have fs: "futures_of (get_tasks job_ok) fresh_client = [0, 1]"
    by (simp add: futures_of_def job_ok_def fresh_client_def upt_conv_Cons)
  have stream: "?ac [0, 1] = [(1, 1), (0, 0)]"
    by (simp add: reverse_completion_def job_ok_def task_result_def task_a_def task_any_def)
  have h4: "\<forall>(f, r) \<in> set (?ac (futures_of (get_tasks job_ok) fresh_client)).
      f \<notin> cancelled_keys (fresh_client :: task client)"
    by (simp add: fresh_client_def)
  have h4': "cancelled_keys (fresh_client :: task client) = {}"
    by (simp add: fresh_client_def)
  note inst = exhausted_job_is_untracked
    [where ac = "reverse_completion (get_tasks job_ok)" and j = job_ok
       and aex = async_executor_tracking and d = fresh_client,
     OF h2 h3 h4, unfolded fs stream]
  let ?end = "async_executor_tracking\<lparr>client := Some (submit_all (get_tasks job_ok) fresh_client),
      futures := (futures async_executor_tracking)(job_ok := None)\<rparr>"
  have it: "iterate 3 (async_run_job_next ?ac) (Created job_ok) async_executor_tracking
      = Some ([1, 0], None, ?end)"
    using inst [THEN conjunct1] by (simp add: numeral_3_eq_3)
  have noop: "cancel_job job_ok ?end = (Inr (), ?end)"
    using inst [THEN conjunct2, THEN conjunct1] .
  have log: "map_option cancel_requests (client ?end) = Some []"
    by (simp add: submit_all_def fresh_client_def)
  have h3': "list_all (\<lambda>t. get_locations t \<noteq> Some []) (get_tasks job_ok)"
    using h3 by (simp add: list_all_iff)
  show ?thesis
    unfolding it using h1 h2 h3' h4' noop log by simp
qed

text \<open>
  Claim C9. Take an iteration of the asynchronous \<^verbatim>\<open>run_job\<close> on a job, from its start
  or from a suspended generator, that has come to its end. If it ended with the
  cancellation error, the job is in the tracker afterwards (a suspended generator even
  leaves the whole executor as it was). If it ended with any error, an entry the job had
  before is still there: the entry is deleted only when the iteration ends without an
  error, and then it is deleted.
\<close>

theorem cancelled_job_stays_tracked:
  fixes aex :: "task async_executor"
  assumes "iterate n (async_run_job_next ac) g aex = Some (ys, e, aex')"
    and "g = Created j \<or> g = Suspended j stream"
  shows "(e = Some JobCancelledError \<and> g = Created j \<longrightarrow> j \<in> dom (futures aex'))
    \<and> (e = Some JobCancelledError \<and> g = Suspended j stream \<longrightarrow> aex' = aex)
    \<and> (e \<noteq> None \<and> j \<in> dom (futures aex) \<longrightarrow> j \<in> dom (futures aex'))
    \<and> (e = None \<longrightarrow> j \<notin> dom (futures aex'))"
  using assms by (rule async_iteration_end)

text \<open>
  A job of two tasks: the first result is yielded, \<^verbatim>\<open>cancel_job\<close> cancels its
  futures, and the rest of the iteration ends with the cancellation error at once; the
  job is still tracked, with futures 0 and 1.
\<close>

theorem cancelled_job_stays_tracked_witness:
  "(case async_run_job_next (reverse_completion (get_tasks job_ok)) (Created job_ok)
           async_executor of
      (s1, g1, ex1) \<Rightarrow>
        g1 = Suspended job_ok [(0, 0)]
        \<and> (case cancel_job job_ok ex1 of
              (c, ex2) \<Rightarrow>
                iterate 1 (async_run_job_next (reverse_completion (get_tasks job_ok))) g1 ex2
                  = Some ([], Some JobCancelledError, ex2)
                \<and> futures ex2 job_ok = Some [0, 1]))"
proof -
  let ?ac = "reverse_completion (get_tasks job_ok)"
  obtain s1 g1 ex1 where first: "async_run_job_next ?ac (Created job_ok) async_executor
      = (s1, g1, ex1)"
    by (cases "async_run_job_next ?ac (Created job_ok) async_executor") auto
  obtain c ex2 where cancel: "cancel_job job_ok ex1 = (c, ex2)"
    by (cases "cancel_job job_ok ex1")
  have g1: "g1 = Suspended job_ok [(0, 0)]"
    and tracked: "futures ex1 job_ok = Some [0, 1]"
    and cl: "client ex1 \<noteq> None"
    using first
    by (auto simp add: get_futures_def job_ok_def task_a_def task_any_def
        async_executor_def fresh_client_def submit_def future_cancelled_def Let_def
        reverse_completion_def task_result_def async_run_job_resume_def)
  have h: "future_cancelled ex2 0" and tracked2: "futures ex2 job_ok = Some [0, 1]"
    using cancel tracked cl
    by (auto simp add: cancel_job_def cancel_def future_cancelled_def split: option.splits)
  have it: "iterate 1 (async_run_job_next ?ac) (Suspended job_ok [(0, 0)]) ex2
      = Some ([], Some JobCancelledError, ex2)"
    using h by (simp add: async_run_job_resume_def)
  have "job_ok \<in> dom (futures ex2)"
    using cancelled_job_stays_tracked [OF it, of job_ok "[(0, 0)]"] tracked2
    by (simp add: domI)
  then show ?thesis
    unfolding first using g1 it tracked2 by (simp add: cancel)
qed

section \<open>Closing an executor\<close>

text \<open>
  \<^verbatim>\<open>AsyncDaskJobExecutor.close\<close> never raises, whatever the client and its cluster do,
  and on a client that is \<^verbatim>\<open>None\<close> it logs and changes nothing else.
\<close>

lemma async_close_never_raises: "fst (async_close aex) = Inr ()"
  by (simp add: async_close_def split: prod.splits sum.splits)

lemma async_close_without_client:
  "client aex = None \<Longrightarrow>
   async_close aex =
     (Inr (), aex\<lparr>logged := logged aex @ [''could not close dask executor, client is None'']\<rparr>)"
  by (simp add: async_close_def async_close_body_def)

text \<open>
  Claim C6 fails for \<^verbatim>\<open>DaskJobExecutor.close\<close>: on an executor whose client is
  \<^verbatim>\<open>None\<close> it raises an \<^verbatim>\<open>AttributeError\<close>, whether the executor is local or not,
  and logs nothing.
\<close>

theorem close_without_client_raises:
  "close \<lparr>client = (None :: task client option), is_local = False, logged = []\<rparr>
     = (Inl AttributeError, \<lparr>client = None, is_local = False, logged = []\<rparr>)
   \<and> close \<lparr>client = (None :: task client option), is_local = True, logged = []\<rparr>
     = (Inl AttributeError, \<lparr>client = None, is_local = True, logged = []\<rparr>)"
  by (simp add: close_def)

section \<open>Thread-count scopes restore what they found\<close>

lemma set_numba_threads_restores:
  "accepts (numba_num_threads st) \<Longrightarrow>
   numba_num_threads (snd (set_numba_threads accepts n body st)) = numba_num_threads st"
  by (simp add: set_numba_threads_def numba_set_num_threads_def Let_def split: prod.splits)

lemma set_fftw_threads_restores:
  "fftw_num_threads (snd (set_fftw_threads True n body st)) = fftw_num_threads st"
  by (simp add: set_fftw_threads_def Let_def split: prod.splits)

text \<open>
  Claim C8. For every thread count \<open>n\<close> and every task body, whether the body returns
  or raises and whatever it does to the thread counts itself: after the scope
  \<^verbatim>\<open>set_num_threads(n)\<close> the thread count of numba is what it was before, and so is that
  of pyfftw when pyfftw is present (and the limit held by threadpoolctl). The one
  assumption is that numba accepts its own current thread count when asked to set it
  again. When numba accepts \<open>n\<close>, the body runs with the counts set to \<open>n\<close> and its
  result or error is that of the scope.
\<close>

theorem set_num_threads_restores:
  assumes "accepts (numba_num_threads st)"
  shows "numba_num_threads (snd (set_num_threads accepts pyfftw n body st)) = numba_num_threads st
    \<and> (pyfftw \<longrightarrow>
         fftw_num_threads (snd (set_num_threads accepts pyfftw n body st)) = fftw_num_threads st)
    \<and> threadpool_limit (snd (set_num_threads accepts pyfftw n body st)) = threadpool_limit st
    \<and> (accepts n \<longrightarrow>
         fst (set_num_threads accepts pyfftw n body st) =
         fst (body (if pyfftw
                    then st\<lparr>threadpool_limit := Some n, fftw_num_threads := n,
                           numba_num_threads := n\<rparr>
                    else st\<lparr>threadpool_limit := Some n, numba_num_threads := n\<rparr>)))"
  using assms
  by (cases pyfftw)
     (auto simp: set_num_threads_def threadpool_limits_def set_fftw_threads_def
        set_numba_threads_def numba_set_num_threads_def Let_def split: prod.splits)

theorem set_num_threads_restores_witness:
  "numba_accepts (numba_num_threads libs_example)
   \<and> set_num_threads numba_accepts True 2 failing_body libs_example
       = (Inl (OtherException ''task failed''), libs_example)
   \<and> fst (set_num_threads numba_accepts True 9 failing_body libs_example)
       = Inl (ValueError ''The number of threads must be between 1 and NUMBA_NUM_THREADS'')
   \<and> snd (set_num_threads numba_accepts True 9 failing_body libs_example) = libs_example"
proof -
  have h: "numba_accepts (numba_num_threads libs_example)"
    by (simp add: numba_accepts_def libs_example_def)
  note inst = set_num_threads_restores
    [where accepts = numba_accepts and st = libs_example and pyfftw = True and n = 2
       and body = failing_body, OF h]
  have e: "set_num_threads numba_accepts True 2 failing_body libs_example
       = (Inl (OtherException ''task failed''), libs_example)"
    by (simp add: set_num_threads_def threadpool_limits_def set_fftw_threads_def
        set_numba_threads_def numba_set_num_threads_def Let_def numba_accepts_def
        libs_example_def failing_body_def)
  have r: "set_num_threads numba_accepts True 9 failing_body libs_example
       = (Inl (ValueError ''The number of threads must be between 1 and NUMBA_NUM_THREADS''),
          libs_example)"
    by (simp add: set_num_threads_def threadpool_limits_def set_fftw_threads_def
        set_numba_threads_def numba_set_num_threads_def Let_def numba_accepts_def
        libs_example_def failing_body_def)
  have "numba_num_threads (snd (set_num_threads numba_accepts True 2 failing_body libs_example))
      = numba_num_threads libs_example"
    using inst by simp
  then show ?thesis using h e r by simp
qed

end
